theory Spec2Isabelle
  imports Main "HOL-Library.Sublist"
begin

section \<open>Python text\<close>

text \<open>
  A Python \<open>str\<close> is modelled as a \<open>string\<close> whose characters are the code points
  below 256. The character classes below are those of CPython on that range.
\<close>

definition code_point :: "char \<Rightarrow> nat" where
  "code_point c = of_char c"

text \<open>\<open>str.isdigit\<close>: the ASCII digits and the superscripts two, three and one.\<close>

definition isdigit_char :: "char \<Rightarrow> bool" where
  "isdigit_char c \<longleftrightarrow>
     (48 \<le> code_point c \<and> code_point c \<le> 57) \<or> code_point c \<in> {178, 179, 185}"

definition isdigit :: "string \<Rightarrow> bool" where
  "isdigit s \<longleftrightarrow> s \<noteq> [] \<and> list_all isdigit_char s"

text \<open>\<open>str.isspace\<close>, which \<open>str.strip()\<close> removes at both ends.\<close>

definition isspace_char :: "char \<Rightarrow> bool" where
  "isspace_char c \<longleftrightarrow>
     (9 \<le> code_point c \<and> code_point c \<le> 13) \<or> (28 \<le> code_point c \<and> code_point c \<le> 32)
     \<or> code_point c \<in> {133, 160}"

definition strip :: "string \<Rightarrow> string" where
  "strip s = rev (dropWhile isspace_char (rev (dropWhile isspace_char s)))"

text \<open>\<open>sep.join(xs)\<close>.\<close>

fun join :: "string \<Rightarrow> string list \<Rightarrow> string" where
  "join sep [] = []"
| "join sep [x] = x"
| "join sep (x # y # ys) = x @ sep @ join sep (y # ys)"

text \<open>\<open>s.split(sep)\<close> for a separator of one character: never an empty list.\<close>

fun split_on :: "char \<Rightarrow> string \<Rightarrow> string list" where
  "split_on sep [] = [[]]"
| "split_on sep (c # cs) =
     (if c = sep then [] # split_on sep cs
      else (case split_on sep cs of
              [] \<Rightarrow> [[c]]
            | p # ps \<Rightarrow> (c # p) # ps))"

text \<open>The decimal digits of a natural number.\<close>

definition digit_char :: "nat \<Rightarrow> char" where
  "digit_char d = char_of (48 + d)"

function nat_str :: "nat \<Rightarrow> string" where
  "nat_str n = (if n < 10 then [digit_char n] else nat_str (n div 10) @ [digit_char (n mod 10)])"
  by pat_completeness auto
termination
  by (relation "measure id") auto

declare nat_str.simps [simp del]

section \<open>Exceptions\<close>

text \<open>
  The exception classes the program raises or lets through, each with its message.
  \<open>CommandError\<close>, \<open>DockerCliError\<close>, \<open>AzureCliError\<close> and \<open>WorkflowError\<close> are subclasses of
  \<open>RuntimeError\<close>, and so is \<open>typer.Exit\<close>; \<open>ValueError\<close> and \<open>OSError\<close> are not.
\<close>

datatype exn =
    CommandError string
  | DockerCliError string
  | AzureCliError string
  | WorkflowError string
  | RuntimeError string
  | ValueError string
  | OSError string
  | Exit int

fun is_RuntimeError :: "exn \<Rightarrow> bool" where
  "is_RuntimeError (ValueError m) = False"
| "is_RuntimeError (OSError m) = False"
| "is_RuntimeError e = True"

text \<open>\<open>str(exc)\<close>; \<open>typer.Exit(code=1)\<close> carries no message.\<close>

fun exn_str :: "exn \<Rightarrow> string" where
  "exn_str (CommandError m) = m"
| "exn_str (DockerCliError m) = m"
| "exn_str (AzureCliError m) = m"
| "exn_str (WorkflowError m) = m"
| "exn_str (RuntimeError m) = m"
| "exn_str (ValueError m) = m"
| "exn_str (OSError m) = m"
| "exn_str (Exit c) = []"

section \<open>Integers and text\<close>

text \<open>
  CPython refuses to convert between \<open>int\<close> and decimal text beyond a number of digits,
  4300 unless the interpreter is configured otherwise: \<open>int(s)\<close>, \<open>str(n)\<close> and an f-string
  of an integer raise \<open>ValueError\<close> past it.
\<close>

definition int_max_str_digits :: nat where
  "int_max_str_digits = 4300"

definition str_limit_error :: exn where
  "str_limit_error =
     ValueError ''Exceeds the limit (4300 digits) for integer string conversion; use sys.set_int_max_str_digits() to increase the limit''"

text \<open>\<open>str(n)\<close> for an integer: decimal digits, a minus sign when negative.\<close>

definition int_str :: "int \<Rightarrow> exn + string" where
  "int_str i =
     (if int_max_str_digits < length (nat_str (nat \<bar>i\<bar>)) then Inl str_limit_error
      else Inr (if i < 0 then CHR ''-'' # nat_str (nat \<bar>i\<bar>) else nat_str (nat \<bar>i\<bar>)))"

text \<open>
  \<open>int(s)\<close> in base 10: blanks are dropped at both ends, then an optional sign, then
  ASCII digits, where one underscore may stand between two digits. The run of digits and
  underscores is read first: a misplaced underscore is an invalid literal, then more
  digits than the limit is an error of its own, then anything left after the run is an
  invalid literal. The message of an invalid literal quotes the argument; \<open>repr\<close> is
  written as the text between single quotes.
\<close>

definition int_blank :: "char \<Rightarrow> bool" where
  "int_blank c \<longleftrightarrow> (9 \<le> code_point c \<and> code_point c \<le> 13) \<or> code_point c \<in> {32, 133, 160}"

definition ascii_digit :: "char \<Rightarrow> bool" where
  "ascii_digit c \<longleftrightarrow> 48 \<le> code_point c \<and> code_point c \<le> 57"

definition digit_value :: "char \<Rightarrow> nat" where
  "digit_value c = code_point c - 48"

definition digit_or_underscore :: "char \<Rightarrow> bool" where
  "digit_or_underscore c \<longleftrightarrow> ascii_digit c \<or> c = CHR ''_''"

text \<open>
  A run of digits and underscores is well formed when it is not empty, neither starts nor
  ends with an underscore and has no two underscores in a row.
\<close>

definition underscores_ok :: "string \<Rightarrow> bool" where
  "underscores_ok run \<longleftrightarrow>
     run \<noteq> [] \<and> hd run \<noteq> CHR ''_'' \<and> last run \<noteq> CHR ''_''
     \<and> \<not> list_ex (\<lambda>(a, b). a = CHR ''_'' \<and> b = CHR ''_'') (zip run (tl run))"

definition decimal :: "string \<Rightarrow> nat" where
  "decimal ds = foldl (\<lambda>a c. a * 10 + digit_value c) 0 ds"

definition invalid_literal :: "string \<Rightarrow> exn" where
  "invalid_literal s =
     ValueError (''invalid literal for int() with base 10: '' @ [CHR 0x27] @ s @ [CHR 0x27])"

definition int_limit_error :: "nat \<Rightarrow> exn" where
  "int_limit_error n =
     ValueError (''Exceeds the limit (4300 digits) for integer string conversion: value has ''
                 @ nat_str n
                 @ '' digits; use sys.set_int_max_str_digits() to increase the limit'')"

text \<open>The unsigned part \<open>u\<close> of the argument \<open>s\<close>.\<close>

definition read_digits :: "string \<Rightarrow> string \<Rightarrow> exn + nat" where
  "read_digits s u =
     (let run = takeWhile digit_or_underscore u;
          rest = dropWhile digit_or_underscore u;
          ds = filter ascii_digit run
      in if \<not> underscores_ok run then Inl (invalid_literal s)
         else if int_max_str_digits < length ds then Inl (int_limit_error (length ds))
         else if rest \<noteq> [] then Inl (invalid_literal s)
         else Inr (decimal ds))"

definition py_int :: "string \<Rightarrow> exn + int" where
  "py_int s =
     (let t = rev (dropWhile int_blank (rev (dropWhile int_blank s)))
      in case t of
           [] \<Rightarrow> Inl (invalid_literal s)
         | c # cs \<Rightarrow>
             if c = CHR ''+'' then map_sum id int (read_digits s cs)
             else if c = CHR ''-'' then map_sum id (\<lambda>n. - int n) (read_digits s cs)
             else map_sum id int (read_digits s t))"

section \<open>Paths\<close>

text \<open>
  A \<open>pathlib.Path\<close> on a POSIX system: a root (\<open>''''\<close>, \<open>''/''\<close> or \<open>''//''\<close>) and the
  names below it. The constructor drops empty names and \<open>.\<close>; two paths are equal when
  root and names are.
\<close>

datatype path = PosixPath (root: string) (names: "string list")

definition Path :: "string \<Rightarrow> path" where
  "Path s =
     (let slashes = length (takeWhile (\<lambda>c. c = CHR ''/'') s);
          r = (if slashes = 0 then [] else if slashes = 2 then ''//'' else ''/'')
      in PosixPath r (filter (\<lambda>n. n \<noteq> [] \<and> n \<noteq> ''.'') (split_on CHR ''/'' s)))"

text \<open>\<open>Path()\<close>, with no argument.\<close>

definition Path_empty :: path where
  "Path_empty = PosixPath [] []"

text \<open>\<open>str(path)\<close>.\<close>

definition path_str :: "path \<Rightarrow> string" where
  "path_str p =
     (if root p = [] \<and> names p = [] then ''.'' else root p @ join ''/'' (names p))"

section \<open>The build plan\<close>

record BuildPlan =
  registry_server :: string
  repository :: string
  tag :: string
  dockerfile_path :: path
  build_context :: path
  skip_latest :: bool
  platform :: "string option"

definition versioned_ref :: "BuildPlan \<Rightarrow> string" where
  "versioned_ref plan = registry_server plan @ ''/'' @ repository plan @ '':'' @ tag plan"

definition latest_ref :: "BuildPlan \<Rightarrow> string" where
  "latest_ref plan = registry_server plan @ ''/'' @ repository plan @ '':latest''"

section \<open>Version suggestions\<close>

type_synonym version = "int \<times> int \<times> int"

text \<open>Python's \<open>v > m\<close> on tuples of three integers.\<close>

fun version_gt :: "version \<Rightarrow> version \<Rightarrow> bool" where
  "version_gt (a, b, c) (x, y, z) \<longleftrightarrow> x < a \<or> (a = x \<and> (y < b \<or> (b = y \<and> z < c)))"

text \<open>
  The loop of \<open>_max_semver\<close>, with \<open>max_version\<close> as its second argument: a tag that has
  not three parts, or a part that is not \<open>isdigit\<close>, is passed over; the three parts of any
  other tag are read with \<open>int\<close>, left to right.
\<close>

fun max_version :: "string list \<Rightarrow> version option \<Rightarrow> exn + version option" where
  "max_version [] mv = Inr mv"
| "max_version (t # tags) mv =
     (if length (split_on CHR ''.'' t) \<noteq> 3 \<or> \<not> list_all isdigit (split_on CHR ''.'' t)
      then max_version tags mv
      else
        (case py_int (split_on CHR ''.'' t ! 0) of
           Inl e \<Rightarrow> Inl e
         | Inr a \<Rightarrow>
            (case py_int (split_on CHR ''.'' t ! 1) of
               Inl e \<Rightarrow> Inl e
             | Inr b \<Rightarrow>
                (case py_int (split_on CHR ''.'' t ! 2) of
                   Inl e \<Rightarrow> Inl e
                 | Inr c \<Rightarrow>
                    (if (case mv of None \<Rightarrow> True | Some m \<Rightarrow> version_gt (a, b, c) m)
                     then max_version tags (Some (a, b, c))
                     else max_version tags mv)))))"

text \<open>The f-string \<open>{a}.{b}.{c}\<close> of three integers, formatted left to right.\<close>

definition format_version :: "version \<Rightarrow> exn + string" where
  "format_version v =
     (case v of (a, b, c) \<Rightarrow>
        (case int_str a of
           Inl e \<Rightarrow> Inl e
         | Inr x \<Rightarrow>
            (case int_str b of
               Inl e \<Rightarrow> Inl e
             | Inr y \<Rightarrow>
                (case int_str c of
                   Inl e \<Rightarrow> Inl e
                 | Inr z \<Rightarrow> Inr (x @ ''.'' @ y @ ''.'' @ z)))))"

definition max_semver :: "string list \<Rightarrow> exn + string option" where
  "max_semver tags =
     (case max_version tags None of
        Inl e \<Rightarrow> Inl e
      | Inr None \<Rightarrow> Inr None
      | Inr (Some v) \<Rightarrow> map_sum id Some (format_version v))"

text \<open>\<open>int(part)\<close> for each part in turn, up to the first that raises.\<close>

fun ints_of :: "string list \<Rightarrow> exn + int list" where
  "ints_of [] = Inr []"
| "ints_of (p # ps) =
     (case py_int p of
        Inl e \<Rightarrow> Inl e
      | Inr i \<Rightarrow> (case ints_of ps of Inl e \<Rightarrow> Inl e | Inr is \<Rightarrow> Inr (i # is)))"

text \<open>The elements of a list display, evaluated left to right up to the first that raises.\<close>

fun all_of :: "(exn + 'a) list \<Rightarrow> exn + 'a list" where
  "all_of [] = Inr []"
| "all_of (r # rs) =
     (case r of
        Inl e \<Rightarrow> Inl e
      | Inr x \<Rightarrow> (case all_of rs of Inl e \<Rightarrow> Inl e | Inr xs \<Rightarrow> Inr (x # xs)))"

text \<open>
  \<open>_suggest_versions\<close>: the unpacking of the generator into three names asks for a fourth
  item before it complains, so at most four parts are read.
\<close>

definition suggest_versions :: "string \<Rightarrow> exn + string list" where
  "suggest_versions base =
     (case ints_of (take 4 (split_on CHR ''.'' base)) of
        Inl e \<Rightarrow> Inl e
      | Inr is \<Rightarrow>
          (case is of
             [major, minor, patch] \<Rightarrow>
               all_of [format_version (major, minor, patch + 1),
                       format_version (major, minor + 1, 0),
                       format_version (major + 1, 0, 0)]
           | _ \<Rightarrow>
               if length is < 3
               then Inl (ValueError (''not enough values to unpack (expected 3, got ''
                                      @ nat_str (length is) @ '')''))
               else Inl (ValueError ''too many values to unpack (expected 3)'')))"

definition build_tag_options :: "string list \<Rightarrow> exn + string list" where
  "build_tag_options tags =
     (case max_semver tags of
        Inl e \<Rightarrow> Inl e
      | Inr latest_semver \<Rightarrow>
          (case (case latest_semver of
                   None \<Rightarrow> Inr [''0.0.1'', ''0.1.0'', ''1.0.0'']
                 | Some base \<Rightarrow>
                     if base \<noteq> [] then suggest_versions base
                     else Inr [''0.0.1'', ''0.1.0'', ''1.0.0'']) of
             Inl e \<Rightarrow> Inl e
           | Inr options \<Rightarrow> Inr (options @ [''Custom tag''])))"

section \<open>Running external commands\<close>

text \<open>
  The two command-line tools are a parameter: given the state of the outside world and an
  argument vector, a tool either cannot be started (\<open>Popen\<close> raises) or writes lines, each
  taken without its line end, exits with a return code and leaves a new world.
\<close>

datatype 'w spawn = NotStarted exn | Exited "string list" int 'w

type_synonym 'w tool = "'w \<Rightarrow> string list \<Rightarrow> 'w spawn"

text \<open>
  A callback receives a text and the observer's own state; it returns normally (\<open>None\<close>)
  or raises.
\<close>

type_synonym 'o callback = "string \<Rightarrow> 'o \<Rightarrow> exn option \<times> 'o"

datatype gateway_call =
    Ensure_available
  | Build_image string path path "string option"
  | Tag_image string string
  | Push_image string
  | Ensure_logged_in
  | Get_current_account
  | Login_tenant string
  | Set_subscription "string option"
  | List_registries
  | Show_registry string string
  | Login_registry string
  | List_repositories string
  | List_tags string string

text \<open>
  The state threaded through the program: the outside world, the argument vector of every
  process handed to \<open>Popen\<close>, the gateway functions entered with their arguments, and the
  observer behind the callbacks.
\<close>

record ('w, 'o) state =
  world :: 'w
  invoked :: "string list list"
  called :: "gateway_call list"
  observer :: 'o

record CommandResult =
  stdout :: string
  stderr :: string
  return_code :: int

definition then_do ::
  "('s \<Rightarrow> (exn + 'a) \<times> 's) \<Rightarrow> ('a \<Rightarrow> 's \<Rightarrow> (exn + 'b) \<times> 's) \<Rightarrow> 's \<Rightarrow> (exn + 'b) \<times> 's" where
  "then_do p f s = (case p s of (Inl e, s') \<Rightarrow> (Inl e, s') | (Inr x, s') \<Rightarrow> f x s')"

definition done_ok :: "'s \<Rightarrow> (exn + unit) \<times> 's" where
  "done_ok s = (Inr (), s)"

text \<open>\<open>try: p except CommandError: raise e\<close>.\<close>

fun is_CommandError :: "exn \<Rightarrow> bool" where
  "is_CommandError (CommandError m) = True"
| "is_CommandError e = False"

definition except_CommandError ::
  "('s \<Rightarrow> (exn + 'a) \<times> 's) \<Rightarrow> exn \<Rightarrow> 's \<Rightarrow> (exn + 'a) \<times> 's" where
  "except_CommandError p e s =
     (case p s of
        (Inl x, s') \<Rightarrow> (Inl (if is_CommandError x then e else x), s')
      | (Inr v, s') \<Rightarrow> (Inr v, s'))"

text \<open>
  The loop of \<open>run_command\<close> over the lines of the process: \<open>on_output\<close>, when given, is
  called with each line and the first exception it raises ends the loop.
\<close>

fun feed :: "'o callback option \<Rightarrow> string list \<Rightarrow> 'o \<Rightarrow> exn option \<times> 'o" where
  "feed on_output [] ob = (None, ob)"
| "feed on_output (l # ls) ob =
     (case on_output of
        None \<Rightarrow> feed on_output ls ob
      | Some f \<Rightarrow>
          (case f l ob of
             (Some e, ob') \<Rightarrow> (Some e, ob')
           | (None, ob') \<Rightarrow> feed on_output ls ob'))"

text \<open>
  \<open>run_command\<close>. The argument vector is recorded when it is handed to \<open>Popen\<close>. When
  \<open>on_output\<close> raises, the process has been started and its effect on the world is taken
  as complete. Log records are not part of the state.
\<close>

definition run_command ::
  "'w tool \<Rightarrow> string list \<Rightarrow> bool \<Rightarrow> 'o callback option \<Rightarrow> ('w, 'o) state
     \<Rightarrow> (exn + CommandResult) \<times> ('w, 'o) state" where
  "run_command tool args check on_output s =
     (case tool (world s) args of
        NotStarted e \<Rightarrow> (Inl e, s\<lparr>invoked := invoked s @ [args]\<rparr>)
      | Exited output_lines rc w \<Rightarrow>
          (case feed on_output output_lines (observer s) of
             (Some e, ob) \<Rightarrow>
               (Inl e, s\<lparr>world := w, invoked := invoked s @ [args], observer := ob\<rparr>)
           | (None, ob) \<Rightarrow>
               (let result = \<lparr>stdout = strip (join [CHR 0x0A] output_lines), stderr = [],
                               return_code = rc\<rparr>
                in (if check \<and> rc \<noteq> 0
                    then Inl (CommandError
                           (if stdout result \<noteq> [] then stdout result else ''Command failed.''))
                    else Inr result,
                    s\<lparr>world := w, invoked := invoked s @ [args], observer := ob\<rparr>))))"

text \<open>\<open>shlex.quote\<close>.\<close>

definition shlex_safe :: "char \<Rightarrow> bool" where
  "shlex_safe c \<longleftrightarrow>
     (48 \<le> code_point c \<and> code_point c \<le> 57) \<or> (65 \<le> code_point c \<and> code_point c \<le> 90)
     \<or> (97 \<le> code_point c \<and> code_point c \<le> 122) \<or> c \<in> set ''_@%+=:,./-''"

definition shlex_quote :: "string \<Rightarrow> string" where
  "shlex_quote s =
     (if s = [] then [CHR 0x27, CHR 0x27]
      else if list_all shlex_safe s then s
      else [CHR 0x27]
           @ concat (map (\<lambda>c. if c = CHR 0x27
                               then [CHR 0x27, CHR 0x22, CHR 0x27, CHR 0x22, CHR 0x27]
                               else [c]) s)
           @ [CHR 0x27])"

definition emit_command ::
  "string list \<Rightarrow> 'o callback option \<Rightarrow> ('w, 'o) state \<Rightarrow> (exn + unit) \<times> ('w, 'o) state" where
  "emit_command args on_command s =
     (case on_command of
        None \<Rightarrow> (Inr (), s)
      | Some f \<Rightarrow>
          (case f (join '' '' (map shlex_quote args)) (observer s) of
             (Some e, ob) \<Rightarrow> (Inl e, s\<lparr>observer := ob\<rparr>)
           | (None, ob) \<Rightarrow> (Inr (), s\<lparr>observer := ob\<rparr>)))"

text \<open>The two statements inside the \<open>try\<close> of every gateway function.\<close>

definition emit_and_run ::
  "'w tool \<Rightarrow> string list \<Rightarrow> 'o callback option \<Rightarrow> 'o callback option \<Rightarrow> ('w, 'o) state
     \<Rightarrow> (exn + CommandResult) \<times> ('w, 'o) state" where
  "emit_and_run tool args on_output on_command =
     then_do (emit_command args on_command) (\<lambda>_. run_command tool args True on_output)"

text \<open>The entry of a gateway function, recorded with its arguments.\<close>

definition enter :: "gateway_call \<Rightarrow> ('w, 'o) state \<Rightarrow> ('w, 'o) state" where
  "enter c s = s\<lparr>called := called s @ [c]\<rparr>"

section \<open>The Docker gateway\<close>

definition ensure_available ::
  "'w tool \<Rightarrow> 'o callback option \<Rightarrow> 'o callback option \<Rightarrow> ('w, 'o) state
     \<Rightarrow> (exn + unit) \<times> ('w, 'o) state" where
  "ensure_available tool on_output on_command s =
     except_CommandError
       (then_do (emit_and_run tool [''docker'', ''info''] on_output on_command) (\<lambda>_. done_ok))
       (DockerCliError ''Docker daemon is not running.'')
       (enter Ensure_available s)"

definition build_args :: "string \<Rightarrow> path \<Rightarrow> path \<Rightarrow> string option \<Rightarrow> string list" where
  "build_args t dockerfile context pf =
     (let args = [''docker'', ''build'', ''-t'', t, ''-f'', path_str dockerfile, path_str context]
      in case pf of
           None \<Rightarrow> args
         | Some p \<Rightarrow>
             if p = [] then args
             else (let args1 = take 2 args @ [''--platform''] @ drop 2 args
                   in take 3 args1 @ [p] @ drop 3 args1))"

definition build_image ::
  "'w tool \<Rightarrow> string \<Rightarrow> path \<Rightarrow> path \<Rightarrow> string option \<Rightarrow> 'o callback option
     \<Rightarrow> 'o callback option \<Rightarrow> ('w, 'o) state \<Rightarrow> (exn + unit) \<times> ('w, 'o) state" where
  "build_image tool t dockerfile context pf on_output on_command s =
     except_CommandError
       (then_do (emit_and_run tool (build_args t dockerfile context pf) on_output on_command)
          (\<lambda>_. done_ok))
       (DockerCliError ''Docker build failed.'')
       (enter (Build_image t dockerfile context pf) s)"

definition tag_image ::
  "'w tool \<Rightarrow> string \<Rightarrow> string \<Rightarrow> 'o callback option \<Rightarrow> 'o callback option
     \<Rightarrow> ('w, 'o) state \<Rightarrow> (exn + unit) \<times> ('w, 'o) state" where
  "tag_image tool source_tag target_tag on_output on_command s =
     except_CommandError
       (then_do (emit_and_run tool [''docker'', ''tag'', source_tag, target_tag]
                   on_output on_command) (\<lambda>_. done_ok))
       (DockerCliError ''Docker tag failed.'')
       (enter (Tag_image source_tag target_tag) s)"

definition push_image ::
  "'w tool \<Rightarrow> string \<Rightarrow> 'o callback option \<Rightarrow> 'o callback option \<Rightarrow> ('w, 'o) state
     \<Rightarrow> (exn + unit) \<times> ('w, 'o) state" where
  "push_image tool t on_output on_command s =
     except_CommandError
       (then_do (emit_and_run tool [''docker'', ''push'', t] on_output on_command)
          (\<lambda>_. done_ok))
       (DockerCliError (''Failed to push image: '' @ t))
       (enter (Push_image t) s)"

section \<open>Build and push\<close>

text \<open>\<open>try: p except (DockerCliError, RuntimeError) as exc: raise WorkflowError(str(exc))\<close>.\<close>

definition as_WorkflowError ::
  "('s \<Rightarrow> (exn + 'a) \<times> 's) \<Rightarrow> 's \<Rightarrow> (exn + 'a) \<times> 's" where
  "as_WorkflowError p s =
     (case p s of
        (Inl x, s') \<Rightarrow> (Inl (if is_RuntimeError x then WorkflowError (exn_str x) else x), s')
      | (Inr v, s') \<Rightarrow> (Inr v, s'))"

definition build_and_push ::
  "'w tool \<Rightarrow> BuildPlan \<Rightarrow> 'o callback option \<Rightarrow> 'o callback option \<Rightarrow> ('w, 'o) state
     \<Rightarrow> (exn + unit) \<times> ('w, 'o) state" where
  "build_and_push tool plan on_output on_command =
     as_WorkflowError
       (then_do (ensure_available tool on_output on_command) (\<lambda>_.
        then_do (build_image tool (versioned_ref plan) (dockerfile_path plan)
                   (build_context plan) (platform plan) on_output on_command) (\<lambda>_.
        then_do (if \<not> skip_latest plan
                 then tag_image tool (versioned_ref plan) (latest_ref plan) on_output on_command
                 else done_ok) (\<lambda>_.
        then_do (push_image tool (versioned_ref plan) on_output on_command) (\<lambda>_.
        (if \<not> skip_latest plan
         then push_image tool (latest_ref plan) on_output on_command
         else done_ok))))))"

section \<open>The Azure gateway\<close>

record AcrRegistry =
  name :: string
  resource_group :: string
  login_server :: string

record AccountInfo =
  tenant_id :: string
  tenant_name :: string
  account_name :: string

text \<open>\<open>str.splitlines\<close>: the line so far, then the rest of the text.\<close>

definition line_boundary :: "char \<Rightarrow> bool" where
  "line_boundary c \<longleftrightarrow>
     (10 \<le> code_point c \<and> code_point c \<le> 13) \<or> (28 \<le> code_point c \<and> code_point c \<le> 30)
     \<or> code_point c = 133"

fun splitlines_from :: "string \<Rightarrow> string \<Rightarrow> string list" where
  "splitlines_from cur [] = (if cur = [] then [] else [cur])"
| "splitlines_from cur [c] = (if line_boundary c then [cur] else [cur @ [c]])"
| "splitlines_from cur (c # d # ds) =
     (if c = CHR 0x0D \<and> d = CHR 0x0A then cur # splitlines_from [] ds
      else if line_boundary c then cur # splitlines_from [] (d # ds)
      else splitlines_from (cur @ [c]) (d # ds))"

definition splitlines :: "string \<Rightarrow> string list" where
  "splitlines s = splitlines_from [] s"

definition split_tsv_lines :: "CommandResult \<Rightarrow> string list list" where
  "split_tsv_lines result =
     filter (\<lambda>parts. parts \<noteq> [])
       (map (\<lambda>raw. map strip (filter (\<lambda>part. strip part \<noteq> []) (split_on CHR 0x09 raw)))
          (splitlines (stdout result)))"

definition ensure_logged_in ::
  "'w tool \<Rightarrow> 'o callback option \<Rightarrow> 'o callback option \<Rightarrow> ('w, 'o) state
     \<Rightarrow> (exn + unit) \<times> ('w, 'o) state" where
  "ensure_logged_in tool on_output on_command s =
     except_CommandError
       (then_do (emit_and_run tool [''az'', ''account'', ''show''] on_output on_command)
          (\<lambda>_. done_ok))
       (AzureCliError ''Azure CLI is not logged in.'')
       (enter Ensure_logged_in s)"

definition get_current_account ::
  "'w tool \<Rightarrow> 'o callback option \<Rightarrow> 'o callback option \<Rightarrow> ('w, 'o) state
     \<Rightarrow> (exn + AccountInfo) \<times> ('w, 'o) state" where
  "get_current_account tool on_output on_command s =
     then_do
       (except_CommandError
          (emit_and_run tool
             [''az'', ''account'', ''show'', ''--query'',
              ''{Tenant:tenantId,TenantName:tenantDisplayName,Account:name}'', ''-o'', ''tsv'']
             on_output on_command)
          (AzureCliError ''Failed to read Azure account info.''))
       (\<lambda>result s'.
          (case split_tsv_lines result of
             [] \<Rightarrow> (Inl (AzureCliError ''Unexpected Azure account response.''), s')
           | parts # _ \<Rightarrow>
               if length parts \<noteq> 3
               then (Inl (AzureCliError ''Unexpected Azure account response.''), s')
               else (Inr \<lparr>tenant_id = parts ! 0, tenant_name = parts ! 1,
                           account_name = parts ! 2\<rparr>, s')))
       (enter Get_current_account s)"

definition login_tenant ::
  "'w tool \<Rightarrow> string \<Rightarrow> 'o callback option \<Rightarrow> 'o callback option \<Rightarrow> ('w, 'o) state
     \<Rightarrow> (exn + unit) \<times> ('w, 'o) state" where
  "login_tenant tool tenant on_output on_command s =
     (if tenant = []
      then (Inl (AzureCliError ''Tenant id is required for login.''), enter (Login_tenant tenant) s)
      else
        except_CommandError
          (then_do (emit_and_run tool [''az'', ''login'', ''--tenant'', tenant]
                      on_output on_command) (\<lambda>_. done_ok))
          (AzureCliError (''Failed to login to tenant: '' @ tenant))
          (enter (Login_tenant tenant) s))"

definition set_subscription ::
  "'w tool \<Rightarrow> string option \<Rightarrow> 'o callback option \<Rightarrow> 'o callback option \<Rightarrow> ('w, 'o) state
     \<Rightarrow> (exn + unit) \<times> ('w, 'o) state" where
  "set_subscription tool subscription on_output on_command s =
     (case subscription of
        None \<Rightarrow> (Inr (), enter (Set_subscription subscription) s)
      | Some sub \<Rightarrow>
          if sub = [] then (Inr (), enter (Set_subscription subscription) s)
          else
            except_CommandError
              (then_do (emit_and_run tool [''az'', ''account'', ''set'', ''--subscription'', sub]
                          on_output on_command) (\<lambda>_. done_ok))
              (AzureCliError (''Failed to set subscription: '' @ sub))
              (enter (Set_subscription subscription) s))"

definition list_registries ::
  "'w tool \<Rightarrow> 'o callback option \<Rightarrow> 'o callback option \<Rightarrow> ('w, 'o) state
     \<Rightarrow> (exn + AcrRegistry list) \<times> ('w, 'o) state" where
  "list_registries tool on_output on_command s =
     then_do
       (except_CommandError
          (emit_and_run tool
             [''az'', ''acr'', ''list'', ''--query'',
              ''[].{Name:name,RG:resourceGroup,LS:loginServer}'', ''-o'', ''tsv'']
             on_output on_command)
          (AzureCliError ''Failed to list registries.''))
       (\<lambda>result s'.
          (Inr (map (\<lambda>line. \<lparr>name = line ! 0, resource_group = line ! 1,
                                  login_server = line ! 2\<rparr>)
                  (filter (\<lambda>line. length line = 3) (split_tsv_lines result))), s'))
       (enter List_registries s)"

definition show_registry_args :: "string \<Rightarrow> string \<Rightarrow> string list" where
  "show_registry_args acr rg =
     [''az'', ''acr'', ''show'', ''--name'', acr, ''--resource-group'', rg, ''--query'',
      ''{Name:name,RG:resourceGroup,LS:loginServer}'', ''-o'', ''tsv'']"

definition show_registry ::
  "'w tool \<Rightarrow> string \<Rightarrow> string \<Rightarrow> 'o callback option \<Rightarrow> 'o callback option
     \<Rightarrow> ('w, 'o) state \<Rightarrow> (exn + AcrRegistry) \<times> ('w, 'o) state" where
  "show_registry tool acr rg on_output on_command s =
     then_do
       (except_CommandError
          (emit_and_run tool (show_registry_args acr rg) on_output on_command)
          (AzureCliError (''Registry not found: '' @ acr)))
       (\<lambda>result s'.
          (case split_tsv_lines result of
             [] \<Rightarrow> (Inl (AzureCliError ''Unexpected registry response.''), s')
           | parts # _ \<Rightarrow>
               if length parts \<noteq> 3
               then (Inl (AzureCliError ''Unexpected registry response.''), s')
               else (Inr \<lparr>name = parts ! 0, resource_group = parts ! 1,
                           login_server = parts ! 2\<rparr>, s')))
       (enter (Show_registry acr rg) s)"

definition login_registry ::
  "'w tool \<Rightarrow> string \<Rightarrow> 'o callback option \<Rightarrow> 'o callback option \<Rightarrow> ('w, 'o) state
     \<Rightarrow> (exn + unit) \<times> ('w, 'o) state" where
  "login_registry tool acr on_output on_command s =
     except_CommandError
       (then_do (emit_and_run tool [''az'', ''acr'', ''login'', ''--name'', acr]
                   on_output on_command) (\<lambda>_. done_ok))
       (AzureCliError (''Failed to login to registry: '' @ acr))
       (enter (Login_registry acr) s)"

text \<open>The first field of every line; no line of \<open>_split_tsv_lines\<close> is empty.\<close>

definition first_fields :: "CommandResult \<Rightarrow> string list" where
  "first_fields result =
     map (\<lambda>line. line ! 0) (filter (\<lambda>line. line \<noteq> []) (split_tsv_lines result))"

definition list_repositories ::
  "'w tool \<Rightarrow> string \<Rightarrow> 'o callback option \<Rightarrow> 'o callback option \<Rightarrow> ('w, 'o) state
     \<Rightarrow> (exn + string list) \<times> ('w, 'o) state" where
  "list_repositories tool acr on_output on_command s =
     then_do
       (emit_and_run tool [''az'', ''acr'', ''repository'', ''list'', ''--name'', acr, ''-o'', ''tsv'']
          on_output on_command)
       (\<lambda>result s'. (Inr (first_fields result), s'))
       (enter (List_repositories acr) s)"

definition list_tags ::
  "'w tool \<Rightarrow> string \<Rightarrow> string \<Rightarrow> 'o callback option \<Rightarrow> 'o callback option
     \<Rightarrow> ('w, 'o) state \<Rightarrow> (exn + string list) \<times> ('w, 'o) state" where
  "list_tags tool acr repo on_output on_command s =
     then_do
       (emit_and_run tool
          [''az'', ''acr'', ''repository'', ''show-tags'', ''--name'', acr, ''--repository'', repo,
           ''-o'', ''tsv'']
          on_output on_command)
       (\<lambda>result s'. (Inr (first_fields result), s'))
       (enter (List_tags acr repo) s)"

section \<open>Workflow helpers\<close>



text \<open>
  What examining a path gives, links followed: nothing there (the path does not exist, a
  part of it is not a directory, a link is broken or loops), an entry of some kind, or an
  operating-system error such as a name that is too long or a directory that may not be
  searched. \<open>Path.is_file\<close> and \<open>Path.is_dir\<close> answer \<open>False\<close> in the first case and let
  the \<open>OSError\<close> through in the last.
\<close>

datatype entry = RegularFile | Directory | OtherEntry






section \<open>Settings and CI mode\<close>

text \<open>
  The fields of \<open>AppSettings\<close>. Those that share a name with a field of the build plan
  carry the prefix \<open>settings_\<close> here.
\<close>

record AppSettings =
  acr_name :: "string option"
  acr_resource_group :: "string option"
  subscription :: "string option"
  settings_tenant_id :: "string option"
  repo_name :: "string option"
  settings_tag :: "string option"
  settings_dockerfile_path :: "path option"
  settings_build_context :: "path option"
  settings_skip_latest :: bool
  settings_platform :: "string option"
  log_level :: string

text \<open>The values \<open>getattr\<close> returns for the fields that are checked.\<close>

datatype pyval = PyNone | PyStr string | PyPath path

definition str_val :: "string option \<Rightarrow> pyval" where
  "str_val v = (case v of None \<Rightarrow> PyNone | Some s \<Rightarrow> PyStr s)"

definition path_val :: "path option \<Rightarrow> pyval" where
  "path_val v = (case v of None \<Rightarrow> PyNone | Some p \<Rightarrow> PyPath p)"

definition ci_fields :: "AppSettings \<Rightarrow> (string \<times> pyval) list" where
  "ci_fields st =
     [(''acr_name'', str_val (acr_name st)),
      (''acr_resource_group'', str_val (acr_resource_group st)),
      (''repo_name'', str_val (repo_name st)),
      (''tag'', str_val (settings_tag st)),
      (''dockerfile_path'', path_val (settings_dockerfile_path st)),
      (''build_context'', path_val (settings_build_context st))]"

definition missing :: "AppSettings \<Rightarrow> string list" where
  "missing st =
     map fst (filter (\<lambda>(n, v). v \<in> set [PyNone, PyStr [], PyPath Path_empty]) (ci_fields st))"

definition require_ci_fields :: "AppSettings \<Rightarrow> exn + unit" where
  "require_ci_fields st =
     (if missing st \<noteq> []
      then Inl (ValueError (''Missing required settings for CI: '' @ join '', '' (missing st)))
      else Inr ())"

definition lift :: "exn + 'a \<Rightarrow> 's \<Rightarrow> (exn + 'a) \<times> 's" where
  "lift r s = (r, s)"



section \<open>Notions used in the statements\<close>

text \<open>A callback that is absent, or that returns normally on every text.\<close>

definition returns_normally :: "'o callback option \<Rightarrow> bool" where
  "returns_normally cb \<longleftrightarrow> (case cb of None \<Rightarrow> True | Some f \<Rightarrow> \<forall>t ob. fst (f t ob) = None)"

text \<open>Two states that differ at most in the observer behind the callbacks.\<close>

definition same_outside :: "('w, 'o) state \<Rightarrow> ('w, 'o) state \<Rightarrow> bool" where
  "same_outside s t \<longleftrightarrow> world s = world t \<and> invoked s = invoked t \<and> called s = called t"

text \<open>
  Two runs with the same result or exception, the same processes started in the same
  order, the same gateway functions entered and the same outside world.
\<close>

definition same_outcome ::
  "(exn + 'a) \<times> ('w, 'o) state \<Rightarrow> (exn + 'a) \<times> ('w, 'o) state \<Rightarrow> bool" where
  "same_outcome r r' \<longleftrightarrow> fst r = fst r' \<and> same_outside (snd r) (snd r')"

definition sim ::
  "(('w, 'o) state \<Rightarrow> (exn + 'a) \<times> ('w, 'o) state)
     \<Rightarrow> (('w, 'o) state \<Rightarrow> (exn + 'a) \<times> ('w, 'o) state) \<Rightarrow> bool" where
  "sim p q \<longleftrightarrow> (\<forall>s t. same_outside s t \<longrightarrow> same_outcome (p s) (q t))"

text \<open>The gateway calls of a plan, in the order of \<open>build_and_push\<close>.\<close>

definition plan_steps :: "BuildPlan \<Rightarrow> gateway_call list" where
  "plan_steps plan =
     [Ensure_available,
      Build_image (versioned_ref plan) (dockerfile_path plan) (build_context plan) (platform plan)]
     @ (if skip_latest plan then [] else [Tag_image (versioned_ref plan) (latest_ref plan)])
     @ [Push_image (versioned_ref plan)]
     @ (if skip_latest plan then [] else [Push_image (latest_ref plan)])"

text \<open>The same steps as programs, and a run of a list of programs up to the first that raises.\<close>

definition plan_programs ::
  "'w tool \<Rightarrow> BuildPlan \<Rightarrow> 'o callback option \<Rightarrow> 'o callback option
     \<Rightarrow> (('w, 'o) state \<Rightarrow> (exn + unit) \<times> ('w, 'o) state) list" where
  "plan_programs tool plan on_output on_command =
     [ensure_available tool on_output on_command,
      build_image tool (versioned_ref plan) (dockerfile_path plan) (build_context plan)
        (platform plan) on_output on_command]
     @ (if skip_latest plan then []
        else [tag_image tool (versioned_ref plan) (latest_ref plan) on_output on_command])
     @ [push_image tool (versioned_ref plan) on_output on_command]
     @ (if skip_latest plan then [] else [push_image tool (latest_ref plan) on_output on_command])"

fun run_steps :: "('s \<Rightarrow> (exn + unit) \<times> 's) list \<Rightarrow> 's \<Rightarrow> (exn + unit) \<times> 's" where
  "run_steps [] s = (Inr (), s)"
| "run_steps (p # ps) s =
     (case p s of (Inl e, s') \<Rightarrow> (Inl e, s') | (Inr u, s') \<Rightarrow> run_steps ps s')"

definition appends ::
  "(('w, 'o) state \<Rightarrow> (exn + 'a) \<times> ('w, 'o) state) \<Rightarrow> gateway_call \<Rightarrow> bool" where
  "appends p c \<longleftrightarrow> (\<forall>s. called (snd (p s)) = called s @ [c])"



text \<open>
  The version of a tag in the spec's words: exactly three dot-separated non-negative
  integers, written with decimal digits only. A tag is plain when it has none of the
  superscript digits and none of its dot-separated parts is longer than the digit limit.
\<close>

definition plain :: "string \<Rightarrow> bool" where
  "plain t \<longleftrightarrow>
     (\<forall>c\<in>set t. code_point c \<notin> {178, 179, 185})
     \<and> (\<forall>p\<in>set (split_on CHR ''.'' t). length p \<le> int_max_str_digits)"

definition spec_semver :: "string \<Rightarrow> version option" where
  "spec_semver t =
     (case split_on CHR ''.'' t of
        [a, b, c] \<Rightarrow>
          if list_all (\<lambda>p. p \<noteq> [] \<and> list_all ascii_digit p) [a, b, c]
          then Some (int (decimal a), int (decimal b), int (decimal c))
          else None
      | _ \<Rightarrow> None)"

section \<open>Sample inputs\<close>

text \<open>A tool that always exits with 0, and one whose \<open>docker build\<close> exits with 1.\<close>

definition always_ok :: "unit tool" where
  "always_ok w args = Exited [] 0 w"

definition build_fails :: "unit tool" where
  "build_fails w args =
     (if take 2 args = [''docker'', ''build''] then Exited [''no such file''] 1 w
      else Exited [] 0 w)"


definition sample_plan :: BuildPlan where
  "sample_plan =
     \<lparr>registry_server = ''registry'', repository = ''repo'', tag = ''1.0.0'',
      dockerfile_path = Path ''Dockerfile'', build_context = Path ''app'',
      skip_latest = False, platform = None\<rparr>"

text \<open>An observer that keeps what it was told, and a callback that raises.\<close>

definition fresh :: "(unit, string list) state" where
  "fresh = \<lparr>world = (), invoked = [], called = [], observer = []\<rparr>"

definition keep :: "string list callback" where
  "keep t ob = (None, ob @ [t])"

definition app_closed :: "string list callback" where
  "app_closed t ob = (Some (RuntimeError ''App is not running''), ob)"



definition long_name :: path where
  "long_name = PosixPath [] [replicate 300 CHR ''a'']"

text \<open>The settings built by \<open>test_require_ci_fields_ok\<close> in \<open>tests/test_settings.py\<close>.\<close>

definition settings_of_test :: AppSettings where
  "settings_of_test =
     \<lparr>acr_name = Some ''acr'', acr_resource_group = Some ''rg'', subscription = None,
      settings_tenant_id = None, repo_name = Some ''repo'', settings_tag = Some ''1.0.0'',
      settings_dockerfile_path = Some (Path ''Dockerfile''),
      settings_build_context = Some (Path ''.''), settings_skip_latest = False,
      settings_platform = None, log_level = ''INFO''\<rparr>"


section \<open>Image references\<close>

text \<open>
  C7. For every build plan with registry server r, repository n and tag t, the versioned
  reference is the text r/n:t and the latest reference is r/n:latest; the plan for
  reg.example.com, myrepo and 1.0.0 has the references reg.example.com/myrepo:1.0.0 and
  reg.example.com/myrepo:latest.
\<close>

theorem build_plan_refs:
  "versioned_ref \<lparr>registry_server = r, repository = n, tag = t, dockerfile_path = d,
       build_context = c, skip_latest = k, platform = pf\<rparr> = r @ ''/'' @ n @ '':'' @ t
   \<and> latest_ref \<lparr>registry_server = r, repository = n, tag = t, dockerfile_path = d,
       build_context = c, skip_latest = k, platform = pf\<rparr> = r @ ''/'' @ n @ '':latest''
   \<and> versioned_ref \<lparr>registry_server = ''reg.example.com'', repository = ''myrepo'',
       tag = ''1.0.0'', dockerfile_path = d, build_context = c, skip_latest = k,
       platform = pf\<rparr> = ''reg.example.com/myrepo:1.0.0''
   \<and> latest_ref \<lparr>registry_server = ''reg.example.com'', repository = ''myrepo'',
       tag = ''1.0.0'', dockerfile_path = d, build_context = c, skip_latest = k,
       platform = pf\<rparr> = ''reg.example.com/myrepo:latest''"
  by (simp add: versioned_ref_def latest_ref_def)

section \<open>Decimal numerals are read back\<close>

lemma code_point_digit_char: "d < 10 \<Longrightarrow> code_point (digit_char d) = 48 + d"
  by (simp add: code_point_def digit_char_def)

lemma ascii_digit_digit_char: "d < 10 \<Longrightarrow> ascii_digit (digit_char d)"
  by (simp add: ascii_digit_def code_point_digit_char)

lemma digit_value_digit_char: "d < 10 \<Longrightarrow> digit_value (digit_char d) = d"
  by (simp add: digit_value_def code_point_digit_char)

lemma nat_str_digits: "list_all ascii_digit (nat_str n)"
  by (induction n rule: nat_str.induct) (subst nat_str.simps, simp add: ascii_digit_digit_char)

lemma nat_str_not_Nil: "nat_str n \<noteq> []"
  by (subst nat_str.simps) simp

lemma decimal_nat_str: "decimal (nat_str n) = n"
  unfolding decimal_def
  by (induction n rule: nat_str.induct) (subst nat_str.simps, simp add: digit_value_digit_char)

lemma ascii_digit_facts:
  "ascii_digit c \<Longrightarrow>
   \<not> int_blank c \<and> c \<noteq> CHR ''+'' \<and> c \<noteq> CHR ''-'' \<and> c \<noteq> CHR ''.'' \<and> c \<noteq> CHR ''_''"
  by (auto simp: ascii_digit_def int_blank_def code_point_def)

lemma dropWhile_digits:
  "list_all ascii_digit s \<Longrightarrow> dropWhile int_blank s = s"
  by (cases s) (simp_all add: ascii_digit_facts)

lemma dropWhile_blank_rev_digits:
  "list_all ascii_digit s \<Longrightarrow> dropWhile int_blank (rev s) = rev s"
  by (rule dropWhile_digits) simp

lemma dropWhile_digits_append:
  "list_all ascii_digit s \<Longrightarrow> s \<noteq> [] \<Longrightarrow> dropWhile int_blank (s @ t) = s @ t"
  by (cases s) (simp_all add: ascii_digit_facts)

lemma underscores_ok_digits:
  assumes "list_all ascii_digit u" and "u \<noteq> []"
  shows "underscores_ok u"
proof -
  have n: "c \<noteq> CHR ''_''" if "c \<in> set u" for c
    using assms(1) that ascii_digit_facts by (auto simp: list_all_iff)
  have "hd u \<noteq> CHR ''_''" and "last u \<noteq> CHR ''_''"
    using assms(2) n by simp_all
  moreover have "\<not> list_ex (\<lambda>(a, b). a = CHR ''_'' \<and> b = CHR ''_'') (zip u (tl u))"
    using n by (auto simp: list_ex_iff dest: set_zip_leftD)
  ultimately show ?thesis
    using assms(2) by (simp add: underscores_ok_def)
qed

lemma read_digits_digits:
  assumes "list_all ascii_digit u" and "u \<noteq> []" and "length u \<le> int_max_str_digits"
  shows "read_digits s u = Inr (decimal u)"
proof -
  have t: "takeWhile digit_or_underscore u = u"
    using assms(1) by (auto simp: takeWhile_eq_all_conv list_all_iff digit_or_underscore_def)
  have d: "dropWhile digit_or_underscore u = []"
    using assms(1) by (auto simp: list_all_iff digit_or_underscore_def)
  have f: "filter ascii_digit u = u"
    using assms(1) by (auto simp: list_all_iff)
  show ?thesis
    using assms(3) underscores_ok_digits [OF assms(1,2)]
    by (simp add: read_digits_def Let_def t d f)
qed

lemma py_int_digits:
  assumes "list_all ascii_digit s" and "s \<noteq> []" and "length s \<le> int_max_str_digits"
  shows "py_int s = Inr (int (decimal s))"
proof -
  obtain c cs where s: "s = c # cs"
    using assms(2) by (cases s) auto
  have c: "ascii_digit c"
    using assms(1) s by simp
  have t: "rev (dropWhile int_blank (rev (dropWhile int_blank (c # cs)))) = c # cs"
    using assms(1) s by (simp only: dropWhile_digits dropWhile_blank_rev_digits rev_rev_ident)
  have r: "read_digits (c # cs) (c # cs) = Inr (decimal (c # cs))"
    using assms s by (intro read_digits_digits) simp_all
  show ?thesis
    unfolding py_int_def s Let_def t using ascii_digit_facts [OF c] r by simp
qed

lemma py_int_minus_digits:
  assumes "list_all ascii_digit u" and "u \<noteq> []" and "length u \<le> int_max_str_digits"
  shows "py_int (CHR ''-'' # u) = Inr (- int (decimal u))"
proof -
  have m: "\<not> int_blank CHR ''-''"
    by (simp add: int_blank_def code_point_def)
  have "list_all ascii_digit (rev u)"
    using assms(1) by simp
  then have "dropWhile int_blank (rev u @ [CHR ''-'']) = rev u @ [CHR ''-'']"
    using assms(2) by (intro dropWhile_digits_append) simp_all
  then have t: "rev (dropWhile int_blank (rev (dropWhile int_blank (CHR ''-'' # u))))
                = CHR ''-'' # u"
    using m by simp
  have r: "read_digits (CHR ''-'' # u) u = Inr (decimal u)"
    using assms by (rule read_digits_digits)
  show ?thesis
    unfolding py_int_def Let_def t using r by simp
qed

lemma py_int_int_str:
  assumes "int_str i = Inr t"
  shows "py_int t = Inr i"
proof -
  let ?ds = "nat_str (nat \<bar>i\<bar>)"
  have l: "length ?ds \<le> int_max_str_digits"
    using assms by (simp add: int_str_def split: if_splits)
  have t: "t = (if i < 0 then CHR ''-'' # ?ds else ?ds)"
    using assms by (simp add: int_str_def split: if_splits)
  show ?thesis
  proof (cases "i < 0")
    case True
    then show ?thesis
      using t py_int_minus_digits [OF nat_str_digits nat_str_not_Nil l]
      by (simp add: decimal_nat_str)
  next
    case False
    then show ?thesis
      using t py_int_digits [OF nat_str_digits nat_str_not_Nil l]
      by (simp add: decimal_nat_str)
  qed
qed

section \<open>Tag options\<close>

lemma split_on_no_sep: "sep \<notin> set a \<Longrightarrow> split_on sep a = [a]"
  by (induction a) auto

lemma split_on_append_sep:
  "sep \<notin> set a \<Longrightarrow> split_on sep (a @ sep # rest) = a # split_on sep rest"
  by (induction a) (auto split: list.splits)

lemma dot_notin_nat_str: "CHR ''.'' \<notin> set (nat_str n)"
  using nat_str_digits [of n] ascii_digit_facts by (auto simp: list_all_iff)

lemma dot_notin_int_str: "int_str i = Inr t \<Longrightarrow> CHR ''.'' \<notin> set t"
  by (auto simp: int_str_def dot_notin_nat_str split: if_splits)

lemma format_version_Inr:
  assumes "format_version (a, b, c) = Inr base"
  obtains x y z where "int_str a = Inr x" and "int_str b = Inr y" and "int_str c = Inr z"
    and "base = x @ ''.'' @ y @ ''.'' @ z"
  using assms by (auto simp: format_version_def split: sum.splits)

lemma format_version_not_Nil: "format_version v = Inr base \<Longrightarrow> base \<noteq> []"
  by (cases v) (auto elim: format_version_Inr)

lemma ints_of_format_version:
  assumes "format_version (a, b, c) = Inr base"
  shows "ints_of (take 4 (split_on CHR ''.'' base)) = Inr [a, b, c]"
proof -
  obtain x y z where s: "int_str a = Inr x" "int_str b = Inr y" "int_str c = Inr z"
    and b: "base = x @ ''.'' @ y @ ''.'' @ z"
    using assms by (rule format_version_Inr)
  have "split_on CHR ''.'' base = [x, y, z]"
    using s by (simp add: b split_on_append_sep split_on_no_sep dot_notin_int_str)
  then show ?thesis
    using s by (simp add: py_int_int_str)
qed

lemma suggest_versions_format:
  assumes "format_version (a, b, c) = Inr base"
  shows "suggest_versions base =
     all_of [format_version (a, b, c + 1), format_version (a, b + 1, 0),
             format_version (a + 1, 0, 0)]"
  by (simp add: suggest_versions_def ints_of_format_version [OF assms])

text \<open>
  Where the loop finds a greatest version and every f-string is within the digit limit,
  the options are the three bumps and "Custom tag"; where it finds none, they are the seed.
\<close>

lemma build_tag_options_found:
  assumes "max_version tags None = Inr (Some (M, m, p))"
    and "format_version (M, m, p) = Inr base"
    and "format_version (M, m, p + 1) = Inr patch_bump"
    and "format_version (M, m + 1, 0) = Inr minor_bump"
    and "format_version (M + 1, 0, 0) = Inr major_bump"
  shows "max_semver tags = Inr (Some base)"
    and "build_tag_options tags = Inr [patch_bump, minor_bump, major_bump, ''Custom tag'']"
proof -
  show s: "max_semver tags = Inr (Some base)"
    using assms(1,2) by (simp add: max_semver_def)
  show "build_tag_options tags = Inr [patch_bump, minor_bump, major_bump, ''Custom tag'']"
    using assms by (simp add: build_tag_options_def s format_version_not_Nil
        suggest_versions_format)
qed

lemma build_tag_options_none:
  assumes "max_version tags None = Inr None"
  shows "max_semver tags = Inr None"
    and "build_tag_options tags = Inr [''0.0.1'', ''0.1.0'', ''1.0.0'', ''Custom tag'']"
  using assms by (simp_all add: build_tag_options_def max_semver_def)

lemma int_str_small:
  "int_str 0 = Inr ''0''" "int_str 1 = Inr ''1''" "int_str 2 = Inr ''2''" "int_str 3 = Inr ''3''"
  "int_str 10 = Inr ''10''" "int_str 11 = Inr ''11''"
  by code_simp+

lemma max_version_example:
  "max_version [''1.2.3'', ''1.2.10'', ''bogus'', ''1.2.3.4''] None = Inr (Some (1, 2, 10))"
  by code_simp

lemma build_tag_options_example:
  "max_semver [''1.2.3'', ''1.2.10'', ''bogus'', ''1.2.3.4''] = Inr (Some ''1.2.10'')"
  "build_tag_options [''1.2.3'', ''1.2.10'', ''bogus'', ''1.2.3.4'']
     = Inr [''1.2.11'', ''1.3.0'', ''2.0.0'', ''Custom tag'']"
  using build_tag_options_found [OF max_version_example, of "''1.2.10''" "''1.2.11''" "''1.3.0''"
      "''2.0.0''"]
  by (simp_all add: format_version_def int_str_small)

text \<open>
  C3. The tag options are claimed, for every list of tags, to be the three bumps of the
  greatest version or else the seed 0.0.1, 0.1.0, 1.0.0, each followed by "Custom tag".
  On the single tag 1.2.<superscript two>, which is no version, \<open>_build_tag_options\<close> raises
  the ValueError of \<open>_max_semver\<close> instead of returning the seed.
\<close>

theorem build_tag_options_superscript_digit:
  "spec_semver (''1.2.'' @ [CHR 0xB2]) = None
   \<and> max_semver [''1.2.'' @ [CHR 0xB2]] = Inl (invalid_literal [CHR 0xB2])
   \<and> build_tag_options [''1.2.'' @ [CHR 0xB2]] = Inl (invalid_literal [CHR 0xB2])"
proof -
  have d: "isdigit [CHR 0xB2]" "isdigit ''1''" "isdigit ''2''"
    by (simp_all add: isdigit_def isdigit_char_def code_point_def)
  have p: "py_int [CHR 0xB2] = Inl (invalid_literal [CHR 0xB2])"
    by (simp add: py_int_def read_digits_def underscores_ok_def digit_or_underscore_def
        int_blank_def ascii_digit_def code_point_def)
  have q: "py_int ''1'' = Inr 1" "py_int ''2'' = Inr 2"
    by code_simp+
  have n: "\<not> ascii_digit (CHR 0xB2)"
    by (simp add: ascii_digit_def code_point_def)
  have v: "spec_semver (''1.2.'' @ [CHR 0xB2]) = None"
    using n by (simp add: spec_semver_def)
  have "max_version [''1.2.'' @ [CHR 0xB2]] None = Inl (invalid_literal [CHR 0xB2])"
    using d p q by simp
  then have m: "max_semver [''1.2.'' @ [CHR 0xB2]] = Inl (invalid_literal [CHR 0xB2])"
    by (simp add: max_semver_def)
  then show ?thesis
    using v by (simp add: build_tag_options_def)
qed

section \<open>The greatest version\<close>

text \<open>
  C4. \<open>_max_semver\<close> is claimed to pass over, without raising, every tag that is not three
  dot-separated non-negative integers. The guard is \<open>str.isdigit\<close>, which accepts the
  superscript digits that \<open>int\<close> rejects: on the tags 1.2.3 and 1.2.<superscript two> the
  function raises ValueError instead of returning 1.2.3.
\<close>

theorem max_semver_superscript_digit:
  "isdigit [CHR 0xB2]
   \<and> py_int [CHR 0xB2] = Inl (invalid_literal [CHR 0xB2])
   \<and> max_semver [''1.2.3'', ''1.2.'' @ [CHR 0xB2]] = Inl (invalid_literal [CHR 0xB2])"
proof -
  have d: "isdigit [CHR 0xB2]"
    by (simp add: isdigit_def isdigit_char_def code_point_def)
  have p: "py_int [CHR 0xB2] = Inl (invalid_literal [CHR 0xB2])"
    by (simp add: py_int_def read_digits_def underscores_ok_def digit_or_underscore_def
        int_blank_def ascii_digit_def code_point_def)
  have s: "max_version [''1.2.3''] None = Inr (Some (1, 2, 3))"
    by code_simp
  have i: "isdigit ''1''" "isdigit ''2''" "isdigit ''3''"
    by (simp_all add: isdigit_def isdigit_char_def code_point_def)
  have q: "py_int ''1'' = Inr 1" "py_int ''2'' = Inr 2" "py_int ''3'' = Inr 3"
    by code_simp+
  have "max_version [''1.2.3'', ''1.2.'' @ [CHR 0xB2]] None = Inl (invalid_literal [CHR 0xB2])"
    using d p i q by simp
  then show ?thesis
    using d p by (simp add: max_semver_def)
qed

lemma max_semver_example:
  "max_semver [''1.2.3'', ''1.2.10'', ''bogus'', ''1.2.3.4''] = Inr (Some ''1.2.10'')"
  by (rule build_tag_options_example)

text \<open>
  On plain tags the function does what is claimed: it never raises, and it returns the
  version of some tag that no other tag's version exceeds, or nothing when no tag is a
  version.
\<close>

lemma set_split_on_all: "\<forall>p\<in>set (split_on sep t). set p \<subseteq> set t"
proof (induction t)
  case Nil
  then show ?case by simp
next
  case (Cons c cs)
  show ?case
  proof (cases "split_on sep cs")
    case Nil
    then show ?thesis using Cons by auto
  next
    case (Cons q qs)
    then have "set q \<subseteq> set cs" and "\<forall>p\<in>set qs. set p \<subseteq> set cs"
      using Cons.IH by simp_all
    then show ?thesis using Cons by auto
  qed
qed

lemma set_split_on: "p \<in> set (split_on sep t) \<Longrightarrow> set p \<subseteq> set t"
  using set_split_on_all by blast

lemma isdigit_plain:
  assumes "isdigit p" and "\<forall>c\<in>set p. code_point c \<notin> {178, 179, 185}"
  shows "p \<noteq> [] \<and> list_all ascii_digit p"
  using assms by (auto simp: isdigit_def isdigit_char_def ascii_digit_def list_all_iff)

lemma ascii_digit_isdigit: "p \<noteq> [] \<Longrightarrow> list_all ascii_digit p \<Longrightarrow> isdigit p"
  by (auto simp: isdigit_def isdigit_char_def ascii_digit_def list_all_iff)

lemma max_version_step:
  assumes "plain t"
  shows "max_version (t # tags) mv =
     max_version tags
       (case spec_semver t of
          None \<Rightarrow> mv
        | Some v \<Rightarrow> if (case mv of None \<Rightarrow> True | Some m \<Rightarrow> version_gt v m) then Some v else mv)"
proof (cases "length (split_on CHR ''.'' t) = 3")
  case False
  then have "spec_semver t = None"
    by (auto simp: spec_semver_def split: list.splits)
  then show ?thesis using False by simp
next
  case True
  then obtain a b c where abc: "split_on CHR ''.'' t = [a, b, c]"
    by (auto simp: length_Suc_conv numeral_3_eq_3)
  have pl: "\<forall>x\<in>set a. code_point x \<notin> {178, 179, 185}"
    "\<forall>x\<in>set b. code_point x \<notin> {178, 179, 185}"
    "\<forall>x\<in>set c. code_point x \<notin> {178, 179, 185}"
    using assms set_split_on [of _ "CHR ''.''" t] abc by (auto simp: plain_def)
  have ln: "length a \<le> int_max_str_digits" "length b \<le> int_max_str_digits"
    "length c \<le> int_max_str_digits"
    using assms abc by (simp_all add: plain_def)
  show ?thesis
  proof (cases "list_all isdigit [a, b, c]")
    case False
    then have "\<not> list_all (\<lambda>p. p \<noteq> [] \<and> list_all ascii_digit p) [a, b, c]"
      using ascii_digit_isdigit by auto
    then have "spec_semver t = None"
      by (simp add: spec_semver_def abc)
    then show ?thesis using False abc by simp
  next
    case d: True
    then have g: "a \<noteq> [] \<and> list_all ascii_digit a" "b \<noteq> [] \<and> list_all ascii_digit b"
      "c \<noteq> [] \<and> list_all ascii_digit c"
      using pl isdigit_plain by simp_all
    then have s: "spec_semver t = Some (int (decimal a), int (decimal b), int (decimal c))"
      by (simp add: spec_semver_def abc)
    have "py_int a = Inr (int (decimal a))" "py_int b = Inr (int (decimal b))"
      "py_int c = Inr (int (decimal c))"
      using g ln by (simp_all add: py_int_digits)
    then show ?thesis using d abc s by simp
  qed
qed

lemma version_gt_trans: "version_gt u v \<Longrightarrow> version_gt v w \<Longrightarrow> version_gt u w"
  by (cases u; cases v; cases w) auto

lemma version_gt_total: "\<not> version_gt u v \<Longrightarrow> \<not> version_gt v w \<Longrightarrow> \<not> version_gt u w"
  by (cases u; cases v; cases w) auto

lemma version_gt_irrefl: "\<not> version_gt v v"
  by (cases v) auto

lemma max_version_plain_general:
  assumes "list_all plain tags"
  shows "\<exists>r. max_version tags mv = Inr r
     \<and> (r = mv \<or> (\<exists>t\<in>set tags. spec_semver t = r \<and> r \<noteq> None))
     \<and> (\<forall>m. mv = Some m \<longrightarrow> (\<exists>w. r = Some w \<and> \<not> version_gt m w))
     \<and> (\<forall>t\<in>set tags. \<forall>v. spec_semver t = Some v \<longrightarrow> (\<exists>w. r = Some w \<and> \<not> version_gt v w))"
  using assms
proof (induction tags arbitrary: mv)
  case Nil
  then show ?case by (auto simp: version_gt_irrefl)
next
  case (Cons t tags)
  define mv' where "mv' =
       (case spec_semver t of
          None \<Rightarrow> mv
        | Some v \<Rightarrow> if (case mv of None \<Rightarrow> True | Some m \<Rightarrow> version_gt v m) then Some v else mv)"
  have st: "max_version (t # tags) mv = max_version tags mv'"
    using Cons.prems max_version_step [of t tags mv]
    by (simp add: mv'_def del: max_version.simps)
  obtain r where r: "max_version tags mv' = Inr r"
    "r = mv' \<or> (\<exists>t\<in>set tags. spec_semver t = r \<and> r \<noteq> None)"
    "\<forall>m. mv' = Some m \<longrightarrow> (\<exists>w. r = Some w \<and> \<not> version_gt m w)"
    "\<forall>t\<in>set tags. \<forall>v. spec_semver t = Some v \<longrightarrow> (\<exists>w. r = Some w \<and> \<not> version_gt v w)"
    using Cons.IH [of mv'] Cons.prems by auto
  have a: "r = mv \<or> (\<exists>u\<in>set (t # tags). spec_semver u = r \<and> r \<noteq> None)"
    using r(2) by (auto simp: mv'_def split: option.splits if_splits)
  have b: "\<exists>w. r = Some w \<and> \<not> version_gt m w" if "mv = Some m" for m
  proof (cases "spec_semver t")
    case None
    then show ?thesis using r(3) that by (simp add: mv'_def)
  next
    case (Some v)
    show ?thesis
    proof (cases "version_gt v m")
      case True
      then have "mv' = Some v"
        using Some that by (simp add: mv'_def)
      then obtain w where "r = Some w" "\<not> version_gt v w"
        using r(3) by blast
      moreover have "\<not> version_gt m v"
        using True version_gt_trans [of m v m] version_gt_irrefl by blast
      ultimately show ?thesis using version_gt_total [of m v w] by blast
    next
      case False
      then show ?thesis using r(3) Some that by (simp add: mv'_def)
    qed
  qed
  have c: "\<exists>w. r = Some w \<and> \<not> version_gt v w" if "spec_semver t = Some v" for v
  proof (cases "case mv of None \<Rightarrow> True | Some m \<Rightarrow> version_gt v m")
    case True
    then have "mv' = Some v" using that by (simp add: mv'_def)
    then show ?thesis using r(3) by blast
  next
    case False
    then obtain m where m: "mv = Some m" "\<not> version_gt v m"
      by (cases mv) auto
    then have "mv' = Some m" using that by (simp add: mv'_def)
    then obtain w where "r = Some w" "\<not> version_gt m w" using r(3) by blast
    then show ?thesis using m version_gt_total [of v m w] by blast
  qed
  show ?case
    using st r(1) a b c r(4) by auto
qed

lemma max_version_plain:
  assumes "list_all plain tags"
  shows "\<exists>r. max_version tags None = Inr r
     \<and> (case r of
          None \<Rightarrow> \<forall>t\<in>set tags. spec_semver t = None
        | Some w \<Rightarrow> (\<exists>t\<in>set tags. spec_semver t = Some w)
                    \<and> (\<forall>t\<in>set tags. \<forall>v. spec_semver t = Some v \<longrightarrow> \<not> version_gt v w))"
proof -
  obtain r where r: "max_version tags None = Inr r"
    "r = None \<or> (\<exists>t\<in>set tags. spec_semver t = r \<and> r \<noteq> None)"
    "\<forall>t\<in>set tags. \<forall>v. spec_semver t = Some v \<longrightarrow> (\<exists>w. r = Some w \<and> \<not> version_gt v w)"
    using max_version_plain_general [OF assms, of None] by auto
  show ?thesis
  proof (cases r)
    case None
    have "spec_semver t = None" if "t \<in> set tags" for t
      using r(3) None that by (cases "spec_semver t") auto
    then show ?thesis using r(1) None by simp
  next
    case (Some w)
    then show ?thesis using r by auto
  qed
qed

section \<open>The digit limit\<close>

lemma decimal_snoc: "decimal (u @ [c]) = decimal u * 10 + digit_value c"
  by (simp add: decimal_def)

lemma digit_value_le: "ascii_digit c \<Longrightarrow> digit_value c \<le> 9"
  unfolding ascii_digit_def digit_value_def by linarith

lemma decimal_less: "list_all ascii_digit u \<Longrightarrow> decimal u < 10 ^ length u"
proof (induction u rule: rev_induct)
  case Nil
  then show ?case by (simp add: decimal_def)
next
  case (snoc c u)
  then have "decimal u < 10 ^ length u" and "digit_value c \<le> 9"
    by (simp_all add: digit_value_le)
  then have "decimal u * 10 + digit_value c < 10 ^ length u * 10"
    by linarith
  then show ?case by (simp add: decimal_snoc)
qed

lemma length_nat_str_le: "n < 10 ^ k \<Longrightarrow> 0 < k \<Longrightarrow> length (nat_str n) \<le> k"
proof (induction n arbitrary: k rule: nat_str.induct)
  case (1 n)
  show ?case
  proof (cases "n < 10")
    case True
    then show ?thesis using "1.prems" by (subst nat_str.simps) simp
  next
    case False
    then obtain j where k: "k = Suc j"
      using "1.prems" by (cases k) auto
    have "0 < j"
      using False "1.prems" k by (cases j) auto
    moreover have "n div 10 < 10 ^ j"
      using "1.prems" k by (simp add: less_mult_imp_div_less)
    ultimately have "length (nat_str (n div 10)) \<le> j"
      using False by (intro "1.IH") simp_all
    then show ?thesis
      using False k by (subst nat_str.simps) simp
  qed
qed

lemma length_nat_str_gt: "10 ^ k \<le> n \<Longrightarrow> k < length (nat_str n)"
proof (induction n arbitrary: k rule: nat_str.induct)
  case (1 n)
  show ?case
  proof (cases "n < 10")
    case True
    have "k = 0"
    proof (cases k)
      case 0
      then show ?thesis .
    next
      case (Suc j)
      have "(1::nat) \<le> 10 ^ j" by simp
      then have "(10::nat) \<le> 10 ^ Suc j" by simp
      moreover have "10 ^ Suc j \<le> n" using "1.prems" Suc by simp
      ultimately show ?thesis using True by linarith
    qed
    then show ?thesis using True by (subst nat_str.simps) simp
  next
    case False
    show ?thesis
    proof (cases k)
      case 0
      then show ?thesis using nat_str_not_Nil [of n] by (cases "nat_str n") simp_all
    next
      case (Suc j)
      then have "10 ^ j \<le> n div 10"
        using "1.prems" by (simp add: less_eq_div_iff_mult_less_eq)
      then have "j < length (nat_str (n div 10))"
        using False by (intro "1.IH") simp_all
      then show ?thesis
        using False Suc by (subst nat_str.simps) simp
    qed
  qed
qed

text \<open>The text of a number read from digits within the limit is within the limit.\<close>

lemma int_str_decimal:
  assumes "list_all ascii_digit u" and "u \<noteq> []" and "length u \<le> int_max_str_digits"
  shows "int_str (int (decimal u)) = Inr (nat_str (decimal u))"
proof -
  have "decimal u < 10 ^ length u"
    using assms(1) by (rule decimal_less)
  then have "length (nat_str (decimal u)) \<le> length u"
    using assms(2) by (intro length_nat_str_le) simp_all
  then show ?thesis
    using assms(3) by (simp add: int_str_def)
qed

lemma format_version_spec_semver:
  assumes "plain t" and "spec_semver t = Some v"
  shows "\<exists>base. format_version v = Inr base"
proof -
  obtain a b c where abc: "split_on CHR ''.'' t = [a, b, c]"
    and g: "a \<noteq> [] \<and> list_all ascii_digit a" "b \<noteq> [] \<and> list_all ascii_digit b"
      "c \<noteq> [] \<and> list_all ascii_digit c"
    and v: "v = (int (decimal a), int (decimal b), int (decimal c))"
    using assms(2) by (auto simp: spec_semver_def split: list.splits if_splits)
  have ln: "length a \<le> int_max_str_digits" "length b \<le> int_max_str_digits"
    "length c \<le> int_max_str_digits"
    using assms(1) abc by (simp_all add: plain_def)
  show ?thesis
    using g ln by (simp add: v format_version_def int_str_decimal)
qed

lemma max_semver_plain:
  assumes "list_all plain tags"
  shows "\<exists>r. max_semver tags = Inr r"
proof -
  obtain r where r: "max_version tags None = Inr r"
    and c: "case r of
          None \<Rightarrow> \<forall>t\<in>set tags. spec_semver t = None
        | Some w \<Rightarrow> (\<exists>t\<in>set tags. spec_semver t = Some w)
                    \<and> (\<forall>t\<in>set tags. \<forall>v. spec_semver t = Some v \<longrightarrow> \<not> version_gt v w)"
    using max_version_plain [OF assms] by blast
  show ?thesis
  proof (cases r)
    case None
    then show ?thesis using r by (simp add: max_semver_def)
  next
    case (Some w)
    then obtain t where "t \<in> set tags" and "spec_semver t = Some w"
      using c by auto
    moreover have "plain t"
      using assms \<open>t \<in> set tags\<close> by (simp add: list_all_iff)
    ultimately obtain base where "format_version w = Inr base"
      using format_version_spec_semver by blast
    then show ?thesis using r Some by (simp add: max_semver_def)
  qed
qed

text \<open>
  The patch bump of a version whose patch number is 4300 nines has 4301 digits: the
  f-string raises and so does \<open>_build_tag_options\<close>.
\<close>

lemma decimal_nines: "decimal (replicate n CHR ''9'') + 1 = 10 ^ n"
proof (induction n)
  case 0
  then show ?case by (simp add: decimal_def)
next
  case (Suc n)
  have "replicate (Suc n) CHR ''9'' = replicate n CHR ''9'' @ [CHR ''9'']"
    by (simp add: replicate_append_same)
  then have "decimal (replicate (Suc n) CHR ''9'') = decimal (replicate n CHR ''9'') * 10 + 9"
    by (simp only: decimal_snoc) (simp add: digit_value_def code_point_def)
  then show ?case using Suc by simp
qed

lemma build_tag_options_digit_limit:
  "build_tag_options [''1.2.'' @ replicate 4300 CHR ''9''] = Inl str_limit_error"
proof -
  let ?nines = "replicate 4300 CHR ''9''"
  let ?N = "decimal ?nines"
  have nd: "ascii_digit CHR ''9''" "isdigit_char CHR ''9''"
    by (simp_all add: ascii_digit_def isdigit_char_def code_point_def)
  have a: "list_all ascii_digit ?nines" "?nines \<noteq> []" "length ?nines \<le> int_max_str_digits"
    using nd by (simp_all add: list_all_iff int_max_str_digits_def)
  have sp: "split_on CHR ''.'' (''1.2.'' @ ?nines) = [''1'', ''2'', ?nines]"
    using split_on_append_sep [of "CHR ''.''" "''1''" "''2.'' @ ?nines"]
      split_on_append_sep [of "CHR ''.''" "''2''" ?nines]
      split_on_no_sep [of "CHR ''.''" ?nines]
    by simp
  have d: "isdigit ''1''" "isdigit ''2''" "isdigit ?nines"
    using nd by (simp_all add: isdigit_def isdigit_char_def code_point_def list_all_iff)
  have q: "py_int ''1'' = Inr 1" "py_int ''2'' = Inr 2"
    by code_simp+
  have pn: "py_int ?nines = Inr (int ?N)"
    using a by (rule py_int_digits)
  have mv: "max_version [''1.2.'' @ ?nines] None = Inr (Some (1, 2, int ?N))"
    unfolding max_version.simps sp using d q pn by simp
  have s1: "int_str 1 = Inr ''1''" "int_str 2 = Inr ''2''"
    by (rule int_str_small)+
  have sN: "int_str (int ?N) = Inr (nat_str ?N)"
    using a by (rule int_str_decimal)
  define base where "base = ''1.2.'' @ nat_str ?N"
  have f: "format_version (1, 2, int ?N) = Inr base"
    by (simp add: format_version_def s1 sN base_def)
  have "10 ^ 4300 \<le> ?N + 1"
    by (simp only: decimal_nines)
  then have "4300 < length (nat_str (?N + 1))"
    by (rule length_nat_str_gt)
  moreover have "nat \<bar>int ?N + 1\<bar> = ?N + 1"
    by simp
  ultimately have "int_str (int ?N + 1) = Inl str_limit_error"
    by (simp add: int_str_def int_max_str_digits_def)
  then have b: "format_version (1, 2, int ?N + 1) = Inl str_limit_error"
    by (simp add: format_version_def s1)
  have sv: "suggest_versions base = Inl str_limit_error"
    by (simp add: suggest_versions_format [OF f] b)
  have ms: "max_semver [''1.2.'' @ ?nines] = Inr (Some base)"
    using mv f by (simp add: max_semver_def)
  have nb: "base \<noteq> []"
    using f by (rule format_version_not_Nil)
  show ?thesis
    unfolding build_tag_options_def ms by (simp add: sv nb)
qed

section \<open>Path validation\<close>


lemma Path_long_name: "Path (replicate 300 CHR ''a'') = long_name"
proof -
  have "replicate 300 CHR ''a'' = CHR ''a'' # replicate 299 CHR ''a''"
    by (simp add: replicate_Suc [symmetric] del: replicate_Suc)
  then have t: "takeWhile (\<lambda>c. c = CHR ''/'') (replicate 300 CHR ''a'') = []"
    by simp
  have s: "split_on CHR ''/'' (replicate 300 CHR ''a'') = [replicate 300 CHR ''a'']"
    by (rule split_on_no_sep) simp
  have n1: "replicate 300 CHR ''a'' \<noteq> []"
    by simp
  have n2: "replicate 300 CHR ''a'' \<noteq> ''.''"
  proof
    assume "replicate 300 CHR ''a'' = ''.''"
    then have "length (replicate 300 CHR ''a'') = length ''.''"
      by (rule arg_cong)
    then show False by simp
  qed
  show ?thesis
    using n1 n2 by (simp add: Path_def Let_def t s long_name_def)
qed






section \<open>Required settings of CI mode\<close>


lemma then_do_lift_Inr: "then_do (lift (Inr x)) f s = f x s"
  by (simp add: then_do_def lift_def)

lemma ci_field_names:
  "map fst (ci_fields st) = [''acr_name'', ''acr_resource_group'', ''repo_name'', ''tag'',
     ''dockerfile_path'', ''build_context'']"
  by (simp add: ci_fields_def)

lemma missing_iff:
  "(n, v) \<in> set (ci_fields st) \<Longrightarrow>
   n \<in> set (missing st) \<longleftrightarrow> v \<in> {PyNone, PyStr [], PyPath Path_empty}"
proof -
  have d: "distinct (map fst (ci_fields st))"
    by (simp add: ci_field_names)
  assume m: "(n, v) \<in> set (ci_fields st)"
  have "n \<in> set (missing st) \<longleftrightarrow>
        (\<exists>v'. (n, v') \<in> set (ci_fields st) \<and> v' \<in> {PyNone, PyStr [], PyPath Path_empty})"
    by (auto simp: missing_def image_iff)
  moreover have "\<And>v'. (n, v') \<in> set (ci_fields st) \<Longrightarrow> v' = v"
    using d m by (meson eq_key_imp_eq_value)
  ultimately show ?thesis using m by blast
qed



lemma missing_intro:
  "(n, v) \<in> set (ci_fields st) \<Longrightarrow> v \<in> {PyNone, PyStr [], PyPath Path_empty}
   \<Longrightarrow> n \<in> set (missing st)"
  by (simp add: missing_iff)

lemma dockerfile_path_field:
  "(''dockerfile_path'', path_val (settings_dockerfile_path st)) \<in> set (ci_fields st)"
  by (simp add: ci_fields_def)

lemma build_context_field:
  "(''build_context'', path_val (settings_build_context st)) \<in> set (ci_fields st)"
  by (simp add: ci_fields_def)

lemma Path_dot: "Path ''.'' = Path_empty"
  by (simp add: Path_def Path_empty_def)

text \<open>
  C10. The path \<open>.\<close> equals \<open>Path()\<close>, so a Dockerfile path or build context equal to
  it is counted among the missing fields and the check raises the aggregated error.
\<close>

theorem require_ci_fields_dot_path:
  "Path ''.'' = Path_empty
   \<and> (settings_dockerfile_path st = Some (Path ''.'') \<longrightarrow> ''dockerfile_path'' \<in> set (missing st))
   \<and> (settings_build_context st = Some (Path ''.'') \<longrightarrow> ''build_context'' \<in> set (missing st))
   \<and> (settings_dockerfile_path st = Some (Path ''.'') \<or> settings_build_context st = Some (Path ''.'')
        \<longrightarrow> require_ci_fields st
             = Inl (ValueError (''Missing required settings for CI: '' @ join '', '' (missing st))))"
proof -
  have d: "''dockerfile_path'' \<in> set (missing st)"
    if "settings_dockerfile_path st = Some (Path ''.'')"
    using missing_intro [OF dockerfile_path_field, of st] that
    by (simp add: path_val_def Path_dot)
  have c: "''build_context'' \<in> set (missing st)"
    if "settings_build_context st = Some (Path ''.'')"
    using missing_intro [OF build_context_field, of st] that
    by (simp add: path_val_def Path_dot)
  have "missing st \<noteq> []"
    if "settings_dockerfile_path st = Some (Path ''.'') \<or> settings_build_context st = Some (Path ''.'')"
    using d c that by auto
  then show ?thesis
    using d c by (simp add: Path_dot require_ci_fields_def)
qed

lemma missing_settings_of_test: "missing settings_of_test = [''build_context'']"
  by (simp add: settings_of_test_def missing_def ci_fields_def str_val_def path_val_def
      Path_def Path_empty_def)

theorem require_ci_fields_dot_path_witness:
  "settings_build_context settings_of_test = Some (Path ''.'')
   \<and> ''build_context'' \<in> set (missing settings_of_test)
   \<and> require_ci_fields settings_of_test
       = Inl (ValueError ''Missing required settings for CI: build_context'')"
proof -
  have h: "settings_build_context settings_of_test = Some (Path ''.'')"
    by (simp add: settings_of_test_def)
  show ?thesis
    using h require_ci_fields_dot_path [of settings_of_test]
    by (simp add: missing_settings_of_test)
qed







section \<open>Callbacks that return normally are not observed\<close>

lemma simI:
  "(\<And>s t. same_outside s t \<Longrightarrow> fst (p s) = fst (q t) \<and> same_outside (snd (p s)) (snd (q t)))
   \<Longrightarrow> sim p q"
  by (simp add: sim_def same_outcome_def)

lemma simD:
  "sim p q \<Longrightarrow> same_outside s t \<Longrightarrow> fst (p s) = fst (q t) \<and> same_outside (snd (p s)) (snd (q t))"
  by (simp add: sim_def same_outcome_def)

lemma sim_then_do:
  fixes p :: "('w, 'o) state \<Rightarrow> (exn + 'a) \<times> ('w, 'o) state"
  assumes "sim p q" and "\<And>x. sim (f x) (g x)"
  shows "sim (then_do p f) (then_do q g)"
proof (rule simI)
  fix s t :: "('w, 'o) state"
  assume st: "same_outside s t"
  obtain r s' where p: "p s = (r, s')" by (cases "p s")
  obtain r' t' where q: "q t = (r', t')" by (cases "q t")
  from simD [OF assms(1) st] p q have r: "r = r'" and o: "same_outside s' t'" by simp_all
  show "fst (then_do p f s) = fst (then_do q g t)
        \<and> same_outside (snd (then_do p f s)) (snd (then_do q g t))"
  proof (cases r)
    case (Inl e)
    then show ?thesis using p q r o by (simp add: then_do_def)
  next
    case (Inr x)
    then show ?thesis using p q r simD [OF assms(2) o, of x] by (simp add: then_do_def)
  qed
qed

lemma sim_except_CommandError:
  fixes p :: "('w, 'o) state \<Rightarrow> (exn + 'a) \<times> ('w, 'o) state"
  assumes "sim p q"
  shows "sim (except_CommandError p e) (except_CommandError q e)"
proof (rule simI)
  fix s t :: "('w, 'o) state"
  assume st: "same_outside s t"
  obtain r s' where p: "p s = (r, s')" by (cases "p s")
  obtain r' t' where q: "q t = (r', t')" by (cases "q t")
  from simD [OF assms st] p q have "r = r'" and "same_outside s' t'" by simp_all
  then show "fst (except_CommandError p e s) = fst (except_CommandError q e t)
        \<and> same_outside (snd (except_CommandError p e s)) (snd (except_CommandError q e t))"
    using p q by (auto simp: except_CommandError_def split: sum.splits)
qed

lemma sim_as_WorkflowError:
  fixes p :: "('w, 'o) state \<Rightarrow> (exn + 'a) \<times> ('w, 'o) state"
  assumes "sim p q"
  shows "sim (as_WorkflowError p) (as_WorkflowError q)"
proof (rule simI)
  fix s t :: "('w, 'o) state"
  assume st: "same_outside s t"
  obtain r s' where p: "p s = (r, s')" by (cases "p s")
  obtain r' t' where q: "q t = (r', t')" by (cases "q t")
  from simD [OF assms st] p q have "r = r'" and "same_outside s' t'" by simp_all
  then show "fst (as_WorkflowError p s) = fst (as_WorkflowError q t)
        \<and> same_outside (snd (as_WorkflowError p s)) (snd (as_WorkflowError q t))"
    using p q by (auto simp: as_WorkflowError_def split: sum.splits)
qed

lemma sim_done_ok: "sim done_ok done_ok"
  by (simp add: sim_def same_outcome_def done_ok_def)

lemma sim_enter:
  fixes p :: "('w, 'o) state \<Rightarrow> (exn + 'a) \<times> ('w, 'o) state"
  assumes "sim p q"
  shows "sim (\<lambda>s. p (enter c s)) (\<lambda>s. q (enter c s))"
proof (rule simI)
  fix s t :: "('w, 'o) state"
  assume "same_outside s t"
  then have "same_outside (enter c s) (enter c t)"
    by (simp add: same_outside_def enter_def)
  then show "fst (p (enter c s)) = fst (q (enter c t))
        \<and> same_outside (snd (p (enter c s))) (snd (q (enter c t)))"
    by (rule simD [OF assms])
qed

lemma feed_normal: "returns_normally on_output \<Longrightarrow> fst (feed on_output ls ob) = None"
proof (induction ls arbitrary: ob)
  case Nil
  then show ?case by simp
next
  case (Cons l ls)
  show ?case
  proof (cases on_output)
    case None
    then show ?thesis using Cons by simp
  next
    case (Some f)
    then have "fst (f l ob) = None" using Cons.prems by (simp add: returns_normally_def)
    then obtain ob' where "f l ob = (None, ob')" by (cases "f l ob") auto
    then show ?thesis using Some Cons by simp
  qed
qed

lemma sim_emit_command:
  fixes on_command :: "'o callback option"
  assumes "returns_normally on_command"
  shows "sim (emit_command args on_command :: ('w, 'o) state \<Rightarrow> _) (emit_command args None)"
proof (rule simI)
  fix s t :: "('w, 'o) state"
  assume st: "same_outside s t"
  show "fst (emit_command args on_command s) = fst (emit_command args None t)
        \<and> same_outside (snd (emit_command args on_command s)) (snd (emit_command args None t))"
  proof (cases on_command)
    case None
    then show ?thesis using st by (simp add: emit_command_def)
  next
    case (Some f)
    then have "fst (f (join '' '' (map shlex_quote args)) (observer s)) = None"
      using assms by (simp add: returns_normally_def)
    then obtain ob where "f (join '' '' (map shlex_quote args)) (observer s) = (None, ob)"
      by (cases "f (join '' '' (map shlex_quote args)) (observer s)") auto
    then show ?thesis using Some st by (simp add: emit_command_def same_outside_def)
  qed
qed

lemma sim_run_command:
  fixes on_output :: "'o callback option" and tool :: "'w tool"
  assumes "returns_normally on_output"
  shows "sim (run_command tool args check on_output) (run_command tool args check None)"
proof (rule simI)
  fix s t :: "('w, 'o) state"
  assume st: "same_outside s t"
  then have w: "world t = world s" and i: "invoked t = invoked s" and c: "called t = called s"
    by (simp_all add: same_outside_def)
  show "fst (run_command tool args check on_output s) = fst (run_command tool args check None t)
        \<and> same_outside (snd (run_command tool args check on_output s))
            (snd (run_command tool args check None t))"
  proof (cases "tool (world s) args")
    case (NotStarted e)
    then show ?thesis using st by (simp add: run_command_def same_outside_def)
  next
    case (Exited ls rc w')
    obtain ob where f: "feed on_output ls (observer s) = (None, ob)"
      using feed_normal [OF assms, of ls "observer s"]
      by (cases "feed on_output ls (observer s)") auto
    obtain ob' where g: "feed None ls (observer t) = (None, ob')"
      using feed_normal [of None ls "observer t"]
      by (cases "feed None ls (observer t)") (auto simp: returns_normally_def)
    show ?thesis
      using Exited f g w i c by (simp add: run_command_def same_outside_def Let_def)
  qed
qed

lemma sim_emit_and_run:
  assumes "returns_normally on_output" and "returns_normally on_command"
  shows "sim (emit_and_run tool args on_output on_command) (emit_and_run tool args None None)"
  unfolding emit_and_run_def
  by (intro sim_then_do sim_emit_command sim_run_command assms)

lemma sim_gateway:
  assumes "returns_normally on_output" and "returns_normally on_command"
  shows "sim (\<lambda>s. except_CommandError
                 (then_do (emit_and_run tool args on_output on_command) (\<lambda>_. done_ok)) e
                 (enter c s))
             (\<lambda>s. except_CommandError
                 (then_do (emit_and_run tool args None None) (\<lambda>_. done_ok)) e (enter c s))"
  by (intro sim_enter sim_except_CommandError sim_then_do sim_emit_and_run sim_done_ok assms)

lemma sim_ensure_available:
  assumes "returns_normally on_output" and "returns_normally on_command"
  shows "sim (ensure_available tool on_output on_command) (ensure_available tool None None)"
  using sim_gateway [OF assms] by (simp add: ensure_available_def [abs_def])

lemma sim_build_image:
  assumes "returns_normally on_output" and "returns_normally on_command"
  shows "sim (build_image tool t d c pf on_output on_command) (build_image tool t d c pf None None)"
  using sim_gateway [OF assms] by (simp add: build_image_def [abs_def])

lemma sim_tag_image:
  assumes "returns_normally on_output" and "returns_normally on_command"
  shows "sim (tag_image tool a b on_output on_command) (tag_image tool a b None None)"
  using sim_gateway [OF assms] by (simp add: tag_image_def [abs_def])

lemma sim_push_image:
  assumes "returns_normally on_output" and "returns_normally on_command"
  shows "sim (push_image tool t on_output on_command) (push_image tool t None None)"
  using sim_gateway [OF assms] by (simp add: push_image_def [abs_def])

lemma sim_build_and_push:
  assumes "returns_normally on_output" and "returns_normally on_command"
  shows "sim (build_and_push tool plan on_output on_command) (build_and_push tool plan None None)"
  unfolding build_and_push_def
  by (intro sim_as_WorkflowError sim_then_do)
     (simp_all add: sim_ensure_available sim_build_image sim_tag_image sim_push_image
        sim_done_ok assms)


lemma sim_pure: "sim (\<lambda>s. (r, s)) (\<lambda>s. (r, s))"
  by (simp add: sim_def same_outcome_def)

lemma sim_ensure_logged_in:
  assumes "returns_normally on_output" and "returns_normally on_command"
  shows "sim (ensure_logged_in tool on_output on_command) (ensure_logged_in tool None None)"
  using sim_gateway [OF assms] by (simp add: ensure_logged_in_def [abs_def])

lemma sim_login_registry:
  assumes "returns_normally on_output" and "returns_normally on_command"
  shows "sim (login_registry tool a on_output on_command) (login_registry tool a None None)"
  using sim_gateway [OF assms] by (simp add: login_registry_def [abs_def])

lemma sim_result_enter: "sim (\<lambda>s. (r, enter c s)) (\<lambda>s. (r, enter c s))"
  by (rule sim_enter [where p = "\<lambda>s. (r, s)" and q = "\<lambda>s. (r, s)"]) (rule sim_pure)

lemma sim_login_tenant:
  assumes "returns_normally on_output" and "returns_normally on_command"
  shows "sim (login_tenant tool a on_output on_command) (login_tenant tool a None None)"
proof (cases "a = []")
  case True
  then show ?thesis by (simp add: login_tenant_def [abs_def] sim_result_enter)
next
  case False
  then show ?thesis using sim_gateway [OF assms] by (simp add: login_tenant_def [abs_def])
qed

lemma sim_set_subscription:
  assumes "returns_normally on_output" and "returns_normally on_command"
  shows "sim (set_subscription tool sub on_output on_command) (set_subscription tool sub None None)"
proof (cases "sub = None \<or> sub = Some []")
  case True
  then show ?thesis by (auto simp: set_subscription_def [abs_def] sim_result_enter)
next
  case False
  then obtain a where "sub = Some a" "a \<noteq> []" by (cases sub) auto
  then show ?thesis using sim_gateway [OF assms] by (simp add: set_subscription_def [abs_def])
qed

lemma sim_parsed:
  assumes "returns_normally on_output" and "returns_normally on_command"
  shows "sim (\<lambda>s. then_do (except_CommandError (emit_and_run tool args on_output on_command) e)
                    (\<lambda>result s'. (f result, s')) (enter c s))
             (\<lambda>s. then_do (except_CommandError (emit_and_run tool args None None) e)
                    (\<lambda>result s'. (f result, s')) (enter c s))"
  by (intro sim_enter sim_then_do sim_except_CommandError sim_emit_and_run sim_pure assms)

lemma sim_listed:
  assumes "returns_normally on_output" and "returns_normally on_command"
  shows "sim (\<lambda>s. then_do (emit_and_run tool args on_output on_command)
                    (\<lambda>result s'. (f result, s')) (enter c s))
             (\<lambda>s. then_do (emit_and_run tool args None None)
                    (\<lambda>result s'. (f result, s')) (enter c s))"
  by (intro sim_enter sim_then_do sim_emit_and_run sim_pure assms)

lemma sim_show_registry:
  assumes "returns_normally on_output" and "returns_normally on_command"
  shows "sim (show_registry tool a g on_output on_command) (show_registry tool a g None None)"
  unfolding show_registry_def [abs_def]
  by (intro sim_enter sim_then_do sim_except_CommandError sim_emit_and_run assms)
     (auto simp: sim_def same_outcome_def split: list.splits)

lemma sim_get_current_account:
  assumes "returns_normally on_output" and "returns_normally on_command"
  shows "sim (get_current_account tool on_output on_command) (get_current_account tool None None)"
  unfolding get_current_account_def [abs_def]
  by (intro sim_enter sim_then_do sim_except_CommandError sim_emit_and_run assms)
     (auto simp: sim_def same_outcome_def split: list.splits)

lemma sim_list_registries:
  assumes "returns_normally on_output" and "returns_normally on_command"
  shows "sim (list_registries tool on_output on_command) (list_registries tool None None)"
  unfolding list_registries_def [abs_def] by (rule sim_parsed [OF assms])

lemma sim_list_repositories:
  assumes "returns_normally on_output" and "returns_normally on_command"
  shows "sim (list_repositories tool a on_output on_command) (list_repositories tool a None None)"
  unfolding list_repositories_def [abs_def] by (rule sim_listed [OF assms])

lemma sim_list_tags:
  assumes "returns_normally on_output" and "returns_normally on_command"
  shows "sim (list_tags tool a r on_output on_command) (list_tags tool a r None None)"
  unfolding list_tags_def [abs_def] by (rule sim_listed [OF assms])

lemma sim_same_state: "sim p q \<Longrightarrow> same_outcome (p s) (q s)"
  by (simp add: sim_def same_outside_def)

text \<open>
  C8, as amended. When both callbacks are absent or return normally on every text,
  supplying them changes nothing outside the observer: \<open>build_and_push\<close> and each gateway
  function give the same result or raise the same exception, start the same processes in
  the same order, enter the same gateway functions and leave the same world as the run
  without callbacks.
\<close>

theorem callbacks_observe_only:
  assumes "returns_normally on_output" and "returns_normally on_command"
  shows "same_outcome (build_and_push tool plan on_output on_command s)
           (build_and_push tool plan None None s)
    \<and> same_outcome (ensure_available tool on_output on_command s)
           (ensure_available tool None None s)
    \<and> same_outcome (build_image tool t dockerfile context pf on_output on_command s)
           (build_image tool t dockerfile context pf None None s)
    \<and> same_outcome (tag_image tool source target on_output on_command s)
           (tag_image tool source target None None s)
    \<and> same_outcome (push_image tool t on_output on_command s) (push_image tool t None None s)
    \<and> same_outcome (ensure_logged_in tool on_output on_command s)
           (ensure_logged_in tool None None s)
    \<and> same_outcome (get_current_account tool on_output on_command s)
           (get_current_account tool None None s)
    \<and> same_outcome (login_tenant tool tenant on_output on_command s)
           (login_tenant tool tenant None None s)
    \<and> same_outcome (set_subscription tool sub on_output on_command s)
           (set_subscription tool sub None None s)
    \<and> same_outcome (list_registries tool on_output on_command s)
           (list_registries tool None None s)
    \<and> same_outcome (show_registry tool acr rg on_output on_command s)
           (show_registry tool acr rg None None s)
    \<and> same_outcome (login_registry tool acr on_output on_command s)
           (login_registry tool acr None None s)
    \<and> same_outcome (list_repositories tool acr on_output on_command s)
           (list_repositories tool acr None None s)
    \<and> same_outcome (list_tags tool acr repo on_output on_command s)
           (list_tags tool acr repo None None s)"
  by (intro conjI sim_same_state sim_build_and_push sim_ensure_available sim_build_image
      sim_tag_image sim_push_image sim_ensure_logged_in sim_get_current_account sim_login_tenant
      sim_set_subscription sim_list_registries sim_show_registry sim_login_registry
      sim_list_repositories sim_list_tags assms)

section \<open>Runs on the sample inputs\<close>

lemma feed_None: "feed None ls ob = (None, ob)"
  by (induction ls) simp_all

lemma emit_and_run_None:
  "emit_and_run tool args None None s =
     (case tool (world s) args of
        NotStarted e \<Rightarrow> (Inl e, s\<lparr>invoked := invoked s @ [args]\<rparr>)
      | Exited ls rc w \<Rightarrow>
          (if rc \<noteq> 0
           then Inl (CommandError (if strip (join [CHR 0x0A] ls) \<noteq> []
                                   then strip (join [CHR 0x0A] ls) else ''Command failed.''))
           else Inr \<lparr>stdout = strip (join [CHR 0x0A] ls), stderr = [], return_code = rc\<rparr>,
           s\<lparr>world := w, invoked := invoked s @ [args]\<rparr>))"
  by (simp add: emit_and_run_def then_do_def emit_command_def run_command_def feed_None Let_def
      split: spawn.splits)

text \<open>A gateway function without callbacks, on a tool that starts.\<close>

lemma gateway_None_Exited:
  "tool (world s) args = Exited ls rc w \<Longrightarrow>
   except_CommandError (then_do (emit_and_run tool args None None) (\<lambda>_. done_ok)) e (enter c s)
     = (if rc \<noteq> 0 then Inl e else Inr (),
        s\<lparr>world := w, invoked := invoked s @ [args], called := called s @ [c]\<rparr>)"
  by (simp add: except_CommandError_def then_do_def done_ok_def emit_and_run_None enter_def)

lemma returns_normally_keep: "returns_normally (Some keep)"
  by (simp add: returns_normally_def keep_def)

lemma returns_normally_None: "returns_normally None"
  by (simp add: returns_normally_def)

lemma sample_refs:
  "versioned_ref sample_plan = ''registry/repo:1.0.0''"
  "latest_ref sample_plan = ''registry/repo:latest''"
  "skip_latest sample_plan = False"
  "platform sample_plan = None"
  "path_str (dockerfile_path sample_plan) = ''Dockerfile''"
  "path_str (build_context sample_plan) = ''app''"
  by (simp_all add: sample_plan_def versioned_ref_def latest_ref_def Path_def path_str_def)

lemma run_sample_plan:
  "build_and_push always_ok sample_plan None None fresh =
     (Inr (),
      \<lparr>world = (),
       invoked = [[''docker'', ''info''],
                  [''docker'', ''build'', ''-t'', ''registry/repo:1.0.0'', ''-f'', ''Dockerfile'', ''app''],
                  [''docker'', ''tag'', ''registry/repo:1.0.0'', ''registry/repo:latest''],
                  [''docker'', ''push'', ''registry/repo:1.0.0''],
                  [''docker'', ''push'', ''registry/repo:latest'']],
       called = [Ensure_available,
                 Build_image ''registry/repo:1.0.0'' (Path ''Dockerfile'') (Path ''app'') None,
                 Tag_image ''registry/repo:1.0.0'' ''registry/repo:latest'',
                 Push_image ''registry/repo:1.0.0'',
                 Push_image ''registry/repo:latest''],
       observer = []\<rparr>)"
  by (simp add: build_and_push_def as_WorkflowError_def then_do_def ensure_available_def
      build_image_def tag_image_def push_image_def gateway_None_Exited always_ok_def
      build_args_def sample_refs fresh_def)
     (simp add: sample_plan_def)

lemma run_sample_plan_closed:
  "build_and_push always_ok sample_plan None (Some app_closed) fresh =
     (Inl (WorkflowError ''App is not running''),
      \<lparr>world = (), invoked = [], called = [Ensure_available], observer = []\<rparr>)"
  by (simp add: build_and_push_def as_WorkflowError_def then_do_def ensure_available_def
      except_CommandError_def emit_and_run_def emit_command_def app_closed_def enter_def fresh_def)

text \<open>
  C8 as stated fails for a callback that raises: with a command echo that raises
  RuntimeError, \<open>build_and_push\<close> raises WorkflowError and starts no process, while without
  callbacks the same plan succeeds after five processes.
\<close>

theorem callbacks_observe_only_counterexample:
  "\<not> same_outcome (build_and_push always_ok sample_plan None (Some app_closed) fresh)
        (build_and_push always_ok sample_plan None None fresh)
   \<and> fst (build_and_push always_ok sample_plan None (Some app_closed) fresh)
       = Inl (WorkflowError ''App is not running'')
   \<and> invoked (snd (build_and_push always_ok sample_plan None (Some app_closed) fresh)) = []
   \<and> fst (build_and_push always_ok sample_plan None None fresh) = Inr ()
   \<and> length (invoked (snd (build_and_push always_ok sample_plan None None fresh))) = 5"
  by (simp add: run_sample_plan run_sample_plan_closed same_outcome_def)

theorem callbacks_observe_only_witness:
  "returns_normally (Some keep)
   \<and> same_outcome (build_and_push always_ok sample_plan (Some keep) (Some keep) fresh)
       (build_and_push always_ok sample_plan None None fresh)
   \<and> fst (build_and_push always_ok sample_plan (Some keep) (Some keep) fresh) = Inr ()"
  using callbacks_observe_only [OF returns_normally_keep returns_normally_keep,
      of always_ok sample_plan fresh]
  by (simp add: returns_normally_keep same_outcome_def run_sample_plan)

section \<open>Setting the subscription\<close>




lemma snd_except_CommandError: "snd (except_CommandError p e s) = snd (p s)"
  by (simp add: except_CommandError_def split: prod.splits sum.splits)

lemma snd_then_do_done_ok: "snd (then_do p (\<lambda>_. done_ok) s) = snd (p s)"
  by (simp add: then_do_def done_ok_def split: prod.splits sum.splits)




section \<open>The order of the steps\<close>

lemma called_emit_command: "called (snd (emit_command args on_command s)) = called s"
  by (simp add: emit_command_def split: option.splits prod.splits)

lemma called_run_command: "called (snd (run_command tool args check on_output s)) = called s"
  by (simp add: run_command_def Let_def split: spawn.splits option.splits prod.splits)

lemma called_emit_and_run:
  "called (snd (emit_and_run tool args on_output on_command s)) = called s"
proof (cases "emit_command args on_command s")
  case (Pair r s')
  have "called s' = called s"
    using called_emit_command [of args on_command s] Pair by simp
  then show ?thesis
    using Pair called_run_command [of tool args True on_output s']
    by (cases r) (simp_all add: emit_and_run_def then_do_def)
qed

lemma appends_gateway:
  "appends (\<lambda>s. except_CommandError
               (then_do (emit_and_run tool args on_output on_command) (\<lambda>_. done_ok)) e
               (enter c s)) c"
  by (simp add: appends_def snd_except_CommandError snd_then_do_done_ok called_emit_and_run
      enter_def)

lemma appends_ensure_available:
  "appends (ensure_available tool on_output on_command) Ensure_available"
  using appends_gateway [of tool _ on_output on_command _ Ensure_available]
  by (simp add: ensure_available_def [abs_def])

lemma appends_build_image:
  "appends (build_image tool t d c pf on_output on_command) (Build_image t d c pf)"
  using appends_gateway [of tool _ on_output on_command _ "Build_image t d c pf"]
  by (simp add: build_image_def [abs_def])

lemma appends_tag_image:
  "appends (tag_image tool a b on_output on_command) (Tag_image a b)"
  using appends_gateway [of tool _ on_output on_command _ "Tag_image a b"]
  by (simp add: tag_image_def [abs_def])

lemma appends_push_image:
  "appends (push_image tool t on_output on_command) (Push_image t)"
  using appends_gateway [of tool _ on_output on_command _ "Push_image t"]
  by (simp add: push_image_def [abs_def])

lemma plan_programs_append:
  "list_all2 appends (plan_programs tool plan on_output on_command) (plan_steps plan)"
  by (simp add: plan_programs_def plan_steps_def appends_ensure_available appends_build_image
      appends_tag_image appends_push_image)

lemma length_plan_programs:
  "length (plan_programs tool plan on_output on_command) = length (plan_steps plan)"
  using plan_programs_append [of tool plan on_output on_command] by (rule list_all2_lengthD)

lemma run_steps_called:
  "list_all2 appends ps cs \<Longrightarrow>
   \<exists>k\<le>length cs. called (snd (run_steps ps s)) = called s @ take k cs
      \<and> (fst (run_steps ps s) = Inr () \<longrightarrow> k = length cs) \<and> (cs \<noteq> [] \<longrightarrow> 0 < k)"
proof (induction ps cs arbitrary: s rule: list_all2_induct)
  case Nil
  then show ?case by simp
next
  case (Cons p ps c cs)
  obtain r s' where p: "p s = (r, s')" by (cases "p s")
  have c: "called s' = called s @ [c]"
    using Cons.hyps(1) p by (auto simp: appends_def dest: spec [of _ s])
  show ?case
  proof (cases r)
    case (Inl e)
    then have "called (snd (run_steps (p # ps) s)) = called s @ take 1 (c # cs)"
      and "fst (run_steps (p # ps) s) \<noteq> Inr ()"
      using p c by simp_all
    then show ?thesis by (intro exI [of _ 1]) simp
  next
    case (Inr u)
    obtain k where k: "k \<le> length cs" "called (snd (run_steps ps s')) = called s' @ take k cs"
      "fst (run_steps ps s') = Inr () \<longrightarrow> k = length cs"
      using Cons.IH [of s'] by blast
    have "run_steps (p # ps) s = run_steps ps s'"
      using p Inr by simp
    then show ?thesis
      using k c by (intro exI [of _ "Suc k"]) simp
  qed
qed

lemma run_steps_fail_at:
  "i < length ps \<Longrightarrow> run_steps (take i ps) s = (Inr (), si) \<Longrightarrow> (ps ! i) si = (Inl e, s')
   \<Longrightarrow> run_steps ps s = (Inl e, s')"
proof (induction ps arbitrary: i s)
  case Nil
  then show ?case by simp
next
  case (Cons p ps)
  show ?case
  proof (cases i)
    case 0
    then show ?thesis using Cons.prems by simp
  next
    case (Suc j)
    obtain r s1 where p: "p s = (r, s1)" by (cases "p s")
    show ?thesis
    proof (cases r)
      case (Inl x)
      then show ?thesis using Cons.prems p Suc by simp
    next
      case (Inr u)
      then have "run_steps (take j ps) s1 = (Inr (), si)"
        using Cons.prems p Suc by simp
      then have "run_steps ps s1 = (Inl e, s')"
        using Cons.prems Suc by (intro Cons.IH [of j]) simp_all
      then show ?thesis using p Inr by simp
    qed
  qed
qed

lemma run_steps_take_called:
  assumes "list_all2 appends ps cs" and "run_steps (take i ps) s = (Inr (), si)"
    and "i \<le> length ps"
  shows "called si = called s @ take i cs"
proof -
  have l: "length ps = length cs"
    using assms(1) by (rule list_all2_lengthD)
  have "list_all2 appends (take i ps) (take i cs)"
    using assms(1) by (rule list_all2_takeI)
  from run_steps_called [OF this, of s] assms(2,3) l show ?thesis
    by auto
qed

lemma then_do_done_ok: "then_do done_ok f = f ()"
  by (rule ext) (simp add: then_do_def done_ok_def)

lemma then_do_done_ok_right: "then_do p (\<lambda>_. done_ok) = p"
  by (rule ext) (simp add: then_do_def done_ok_def split: prod.splits sum.splits)

lemma run_steps_three:
  "run_steps [a, b, c] s = then_do a (\<lambda>_. then_do b (\<lambda>_. c)) s"
  by (simp add: then_do_def split: prod.splits sum.splits)

lemma run_steps_five:
  "run_steps [a, b, c, d, e] s
     = then_do a (\<lambda>_. then_do b (\<lambda>_. then_do c (\<lambda>_. then_do d (\<lambda>_. e)))) s"
  by (simp add: then_do_def split: prod.splits sum.splits)

lemma build_and_push_run_steps:
  "build_and_push tool plan on_output on_command s
     = as_WorkflowError (run_steps (plan_programs tool plan on_output on_command)) s"
proof (cases "skip_latest plan")
  case True
  then show ?thesis
    by (simp add: build_and_push_def plan_programs_def as_WorkflowError_def run_steps_three
        then_do_done_ok then_do_done_ok_right del: run_steps.simps)
next
  case False
  then show ?thesis
    by (simp add: build_and_push_def plan_programs_def as_WorkflowError_def run_steps_five
        del: run_steps.simps)
qed











text \<open>
  C2. When the steps before step i succeed and step i raises an exception e that is a
  RuntimeError (a DockerCliError is one), \<open>build_and_push\<close> raises WorkflowError with the
  message of e and ends in the state that step left: the gateway functions entered are
  the first i + 1 of the plan and no later step is attempted.
\<close>

theorem build_and_push_failure:
  assumes "i < length (plan_steps plan)"
    and "run_steps (take i (plan_programs tool plan on_output on_command)) s = (Inr (), si)"
    and "(plan_programs tool plan on_output on_command ! i) si = (Inl e, s')"
    and "is_RuntimeError e"
  shows "build_and_push tool plan on_output on_command s = (Inl (WorkflowError (exn_str e)), s')
    \<and> called s' = called s @ take (Suc i) (plan_steps plan)"
proof -
  let ?ps = "plan_programs tool plan on_output on_command"
  have i: "i < length ?ps"
    using assms(1) by (simp add: length_plan_programs)
  have "run_steps ?ps s = (Inl e, s')"
    using i assms(2,3) by (rule run_steps_fail_at)
  then have b: "build_and_push tool plan on_output on_command s
                = (Inl (WorkflowError (exn_str e)), s')"
    using assms(4) by (simp add: build_and_push_run_steps as_WorkflowError_def)
  have c: "called si = called s @ take i (plan_steps plan)"
    using plan_programs_append assms(2) i by (intro run_steps_take_called [of ?ps]) simp_all
  have "appends (?ps ! i) (plan_steps plan ! i)"
    using plan_programs_append i by (rule list_all2_nthD)
  then have "called s' = called si @ [plan_steps plan ! i]"
    using assms(3) by (auto simp: appends_def dest: spec [of _ si])
  then have "called s' = called s @ take (Suc i) (plan_steps plan)"
    using c assms(1) by (simp add: take_Suc_conv_app_nth)
  then show ?thesis using b by simp
qed

section \<open>The steps on the sample plan\<close>

lemma plan_steps_sample:
  "plan_steps sample_plan =
     [Ensure_available,
      Build_image ''registry/repo:1.0.0'' (Path ''Dockerfile'') (Path ''app'') None,
      Tag_image ''registry/repo:1.0.0'' ''registry/repo:latest'',
      Push_image ''registry/repo:1.0.0'',
      Push_image ''registry/repo:latest'']"
  by (simp add: plan_steps_def sample_refs) (simp add: sample_plan_def)


lemma build_fails_info:
  "build_fails w [''docker'', ''info''] = Exited [] 0 w"
  by (simp add: build_fails_def)

lemma build_fails_build:
  "build_fails w (''docker'' # ''build'' # rest) = Exited [''no such file''] 1 w"
  by (simp add: build_fails_def)

lemma sample_programs:
  "take 1 (plan_programs build_fails sample_plan None None)
     = [ensure_available build_fails None None]"
  "plan_programs build_fails sample_plan None None ! 1
     = build_image build_fails ''registry/repo:1.0.0'' (Path ''Dockerfile'') (Path ''app'') None
         None None"
  by (simp_all add: plan_programs_def sample_refs) (simp add: sample_plan_def)

theorem build_and_push_failure_witness:
  "1 < length (plan_steps sample_plan)
   \<and> run_steps (take 1 (plan_programs build_fails sample_plan None None)) fresh
       = (Inr (), \<lparr>world = (), invoked = [[''docker'', ''info'']], called = [Ensure_available],
                   observer = []\<rparr>)
   \<and> is_RuntimeError (DockerCliError ''Docker build failed.'')
   \<and> build_and_push build_fails sample_plan None None fresh
       = (Inl (WorkflowError ''Docker build failed.''),
          \<lparr>world = (),
           invoked = [[''docker'', ''info''],
                      [''docker'', ''build'', ''-t'', ''registry/repo:1.0.0'', ''-f'', ''Dockerfile'',
                       ''app'']],
           called = [Ensure_available,
                     Build_image ''registry/repo:1.0.0'' (Path ''Dockerfile'') (Path ''app'') None],
           observer = []\<rparr>)"
proof -
  let ?s1 = "\<lparr>world = (), invoked = [[''docker'', ''info'']], called = [Ensure_available],
              observer = [] :: string list\<rparr>"
  let ?s2 = "\<lparr>world = (),
           invoked = [[''docker'', ''info''],
                      [''docker'', ''build'', ''-t'', ''registry/repo:1.0.0'', ''-f'', ''Dockerfile'',
                       ''app'']],
           called = [Ensure_available,
                     Build_image ''registry/repo:1.0.0'' (Path ''Dockerfile'') (Path ''app'') None],
           observer = [] :: string list\<rparr>"
  have l: "1 < length (plan_steps sample_plan)"
    by (simp add: plan_steps_sample)
  have a: "run_steps (take 1 (plan_programs build_fails sample_plan None None)) fresh
             = (Inr (), ?s1)"
    by (simp only: sample_programs)
       (simp add: ensure_available_def gateway_None_Exited build_fails_info fresh_def)
  have b: "(plan_programs build_fails sample_plan None None ! 1) ?s1
             = (Inl (DockerCliError ''Docker build failed.''), ?s2)"
    by (simp only: sample_programs)
       (simp add: build_image_def build_args_def gateway_None_Exited build_fails_build Path_def
          path_str_def)
  have r: "is_RuntimeError (DockerCliError ''Docker build failed.'')"
    by simp
  show ?thesis
    using l a r build_and_push_failure [OF l a b r] by simp
qed

end
